theory Spec2Isabelle
  imports Complex_Main "HOL-Library.Log_Nat"
begin

section \<open>JavaScript numbers and the built-ins used by app.js\<close>

text \<open>
  A JavaScript number is an IEEE 754 double. The model keeps the special values apart
  and represents every other double by the rational it denotes: \<open>Fin q\<close> is the
  double of value \<open>q\<close> (\<open>Fin 0\<close> is the positive zero), \<open>NegZero\<close> is the negative
  zero. Arithmetic is exact rational arithmetic followed by \<open>roundDouble\<close>, rounding to
  the nearest double with ties to the even significand, as the language standard
  prescribes. Strings are lists of 8-bit characters, each standing for the code unit of
  that number; the calculator only ever builds strings from ASCII keys and from formatted
  numbers.
\<close>

datatype jsnum = NaN | PInf | NInf | NegZero | Fin rat

definition pow2 :: "int \<Rightarrow> rat" where
  "pow2 e = (if 0 \<le> e then 2 ^ nat e else 1 / 2 ^ nat (- e))"

definition pow10 :: "int \<Rightarrow> rat" where
  "pow10 e = (if 0 \<le> e then 10 ^ nat e else 1 / 10 ^ nat (- e))"

text \<open>\<open>ilog2 a\<close> is the integer part of the binary logarithm of a positive rational.\<close>

definition ilog2 :: "rat \<Rightarrow> int" where
  "ilog2 a = (if 1 \<le> a then bitlen \<lfloor>a\<rfloor> - 1 else - bitlen (\<lceil>1 / a\<rceil> - 1))"

definition roundHalfEven :: "rat \<Rightarrow> int" where
  "roundHalfEven q =
     (let f = \<lfloor>q\<rfloor>; r = q - of_int f
      in if r < 1 / 2 then f else if 1 / 2 < r then f + 1 else if even f then f else f + 1)"

definition roundHalfUp :: "rat \<Rightarrow> int" where
  "roundHalfUp q = \<lfloor>q + 1 / 2\<rfloor>"

text \<open>
  Rounding a non-zero rational to a double: the significand has 53 bits, the exponent of
  the unit in the last place is at least \<open>-1074\<close> (subnormal numbers), a result that
  reaches \<open>2 ^ 1024\<close> is an infinity, and a magnitude that rounds to nothing is a zero of
  the same sign.
\<close>

definition roundDouble :: "rat \<Rightarrow> jsnum" where
  "roundDouble q =
     (if q = 0 then Fin 0
      else
        let a = \<bar>q\<bar>;
            e = max (ilog2 a) (- 1022);
            n = roundHalfEven (a / pow2 (e - 52))
        in if n = 0 then (if q < 0 then NegZero else Fin 0)
           else if 1023 < e \<or> (e = 1023 \<and> 2 ^ 53 \<le> n) then (if q < 0 then NInf else PInf)
           else Fin ((if q < 0 then - 1 else 1) * of_int n * pow2 (e - 52)))"

text \<open>\<open>Number.isFinite\<close>, the sign bit, the test \<open>x === 0\<close> and the arithmetic operators.\<close>

definition isFinite :: "jsnum \<Rightarrow> bool" where
  "isFinite x = (case x of Fin _ \<Rightarrow> True | NegZero \<Rightarrow> True | _ \<Rightarrow> False)"

definition isNegative :: "jsnum \<Rightarrow> bool" where
  "isNegative x = (case x of NInf \<Rightarrow> True | NegZero \<Rightarrow> True | Fin q \<Rightarrow> q < 0 | _ \<Rightarrow> False)"

definition isZero :: "jsnum \<Rightarrow> bool" where
  "isZero x = (x = Fin 0 \<or> x = NegZero)"

definition valueOf :: "jsnum \<Rightarrow> rat" where
  "valueOf x = (case x of Fin q \<Rightarrow> q | _ \<Rightarrow> 0)"

definition signedZero :: "bool \<Rightarrow> jsnum" where
  "signedZero neg = (if neg then NegZero else Fin 0)"

definition signedInf :: "bool \<Rightarrow> jsnum" where
  "signedInf neg = (if neg then NInf else PInf)"

definition js_neg :: "jsnum \<Rightarrow> jsnum" where
  "js_neg x = (case x of
       NaN \<Rightarrow> NaN | PInf \<Rightarrow> NInf | NInf \<Rightarrow> PInf | NegZero \<Rightarrow> Fin 0
     | Fin q \<Rightarrow> if q = 0 then NegZero else Fin (- q))"

definition js_add :: "jsnum \<Rightarrow> jsnum \<Rightarrow> jsnum" where
  "js_add a b =
     (if a = NaN \<or> b = NaN then NaN
      else if \<not> isFinite a then (if \<not> isFinite b \<and> a \<noteq> b then NaN else a)
      else if \<not> isFinite b then b
      else if a = NegZero \<and> b = NegZero then NegZero
      else roundDouble (valueOf a + valueOf b))"

definition js_sub :: "jsnum \<Rightarrow> jsnum \<Rightarrow> jsnum" where
  "js_sub a b = js_add a (js_neg b)"

definition js_mul :: "jsnum \<Rightarrow> jsnum \<Rightarrow> jsnum" where
  "js_mul a b =
     (let neg = (isNegative a \<noteq> isNegative b) in
      if a = NaN \<or> b = NaN then NaN
      else if \<not> isFinite a \<or> \<not> isFinite b then
        (if isZero a \<or> isZero b then NaN else signedInf neg)
      else if isZero a \<or> isZero b then signedZero neg
      else roundDouble (valueOf a * valueOf b))"

definition js_div :: "jsnum \<Rightarrow> jsnum \<Rightarrow> jsnum" where
  "js_div a b =
     (let neg = (isNegative a \<noteq> isNegative b) in
      if a = NaN \<or> b = NaN then NaN
      else if \<not> isFinite a then (if \<not> isFinite b then NaN else signedInf neg)
      else if \<not> isFinite b then signedZero neg
      else if isZero b then (if isZero a then NaN else signedInf neg)
      else if isZero a then signedZero neg
      else roundDouble (valueOf a / valueOf b))"

subsection \<open>Decimal digits\<close>

definition isDigit :: "char \<Rightarrow> bool" where
  "isDigit c = (c \<in> set ''0123456789'')"

definition digitVal :: "char \<Rightarrow> int" where
  "digitVal c = of_char c - 48"

definition digitChar :: "int \<Rightarrow> char" where
  "digitChar d = char_of (48 + d)"

definition digitsValue :: "string \<Rightarrow> int" where
  "digitsValue ds = fold (\<lambda>c v. 10 * v + digitVal c) ds 0"

function digitsOf :: "int \<Rightarrow> string" where
  "digitsOf n = (if n < 10 then [digitChar n] else digitsOf (n div 10) @ [digitChar (n mod 10)])"
  by pat_completeness auto
termination
  by (relation "measure nat") auto

declare digitsOf.simps [simp del]

text \<open>\<open>ilog10 a\<close> is the integer part of the decimal logarithm of a positive rational.\<close>

definition ilog10 :: "rat \<Rightarrow> int" where
  "ilog10 a = (if 1 \<le> a then int (length (digitsOf \<lfloor>a\<rfloor>)) - 1
               else - int (length (digitsOf (\<lceil>1 / a\<rceil> - 1))))"

subsection \<open>Strings to numbers: \<open>Number(s)\<close> and \<open>parseFloat(s)\<close>\<close>

text \<open>
  Both read the decimal literals of the language standard (\<open>StrDecimalLiteral\<close>): an
  optional sign, then \<open>Infinity\<close> or digits with an optional fraction and an optional
  exponent. \<open>scanDecimal\<close> returns the value of the longest such prefix and the rest of
  the input. \<open>parseFloat\<close> skips leading white space and ignores the rest;
  \<open>Number\<close> trims white space at both ends, maps the empty string to \<open>0\<close>, accepts
  the prefixed integer literals (\<open>0x\<close>, \<open>0o\<close>, \<open>0b\<close>) and rejects any other rest.
  A character of a string is one code unit below 256; the white space of the standard in
  that range is tab, line feed, vertical tab, form feed, carriage return, space and the
  no-break space (code 160).
\<close>

definition isWhite :: "char \<Rightarrow> bool" where
  "isWhite c = (of_char c \<in> {9, 10, 11, 12, 13, 32, 160 :: int})"

definition scanSign :: "string \<Rightarrow> bool \<times> string" where
  "scanSign s = (case s of
       c # r \<Rightarrow> if c = CHR ''-'' then (True, r) else if c = CHR ''+'' then (False, r) else (False, s)
     | [] \<Rightarrow> (False, s))"

definition scanExponent :: "string \<Rightarrow> int \<times> string" where
  "scanExponent s = (case s of
       c # r \<Rightarrow>
         if c = CHR ''e'' \<or> c = CHR ''E'' then
           (let (neg, r1) = scanSign r; ds = takeWhile isDigit r1
            in if ds = [] then (0, s)
               else ((if neg then - 1 else 1) * digitsValue ds, dropWhile isDigit r1))
         else (0, s)
     | [] \<Rightarrow> (0, s))"

definition scanDecimal :: "string \<Rightarrow> (jsnum \<times> string) option" where
  "scanDecimal s =
     (let (neg, s1) = scanSign s in
      if take 8 s1 = ''Infinity'' then Some (signedInf neg, drop 8 s1)
      else
        let ip = takeWhile isDigit s1;
            s2 = dropWhile isDigit s1;
            hasDot = (case s2 of c # _ \<Rightarrow> c = CHR ''.'' | [] \<Rightarrow> False);
            fp = (if hasDot then takeWhile isDigit (tl s2) else []);
            s3 = (if hasDot then dropWhile isDigit (tl s2) else s2)
        in if ip = [] \<and> fp = [] then None
           else
             let (ex, s4) = scanExponent s3;
                 mv = of_int (digitsValue (ip @ fp)) * pow10 (ex - int (length fp))
             in Some (if mv = 0 then signedZero neg
                      else roundDouble (if neg then - mv else mv), s4))"

definition trimString :: "string \<Rightarrow> string" where
  "trimString s = rev (dropWhile isWhite (rev (dropWhile isWhite s)))"

definition radixDigit :: "int \<Rightarrow> char \<Rightarrow> int option" where
  "radixDigit b c =
     (let k = of_char c :: int;
          v = (if 48 \<le> k \<and> k \<le> 57 then Some (k - 48)
               else if 97 \<le> k \<and> k \<le> 102 then Some (k - 87)
               else if 65 \<le> k \<and> k \<le> 70 then Some (k - 55)
               else None)
      in case v of Some d \<Rightarrow> if d < b then Some d else None | None \<Rightarrow> None)"

definition scanRadix :: "int \<Rightarrow> string \<Rightarrow> jsnum" where
  "scanRadix b ds =
     (if ds = [] \<or> list_ex (\<lambda>c. radixDigit b c = None) ds then NaN
      else roundDouble (of_int (fold (\<lambda>c v. b * v + the (radixDigit b c)) ds 0)))"

definition Number :: "string \<Rightarrow> jsnum" where
  "Number s =
     (let t = trimString s in
      if t = [] then Fin 0
      else if take 2 t = ''0x'' \<or> take 2 t = ''0X'' then scanRadix 16 (drop 2 t)
      else if take 2 t = ''0o'' \<or> take 2 t = ''0O'' then scanRadix 8 (drop 2 t)
      else if take 2 t = ''0b'' \<or> take 2 t = ''0B'' then scanRadix 2 (drop 2 t)
      else case scanDecimal t of Some (v, []) \<Rightarrow> v | _ \<Rightarrow> NaN)"

definition parseFloat :: "string \<Rightarrow> jsnum" where
  "parseFloat s = (case scanDecimal (dropWhile isWhite s) of Some (v, _) \<Rightarrow> v | None \<Rightarrow> NaN)"

subsection \<open>Numbers to strings: \<open>toPrecision\<close>, \<open>toFixed\<close>, \<open>toString\<close>\<close>

text \<open>
  \<open>toPrecision p\<close> prints \<open>p\<close> significant digits: \<open>sigDigits\<close> finds the exponent
  \<open>e\<close> and the \<open>p\<close>-digit integer \<open>n\<close> with \<open>n * 10 ^ (e - p + 1)\<close> nearest to the
  value (the larger \<open>n\<close> on a tie); exponential notation is used when \<open>e < -6\<close> or
  \<open>e \<ge> p\<close>.
\<close>

definition sigDigits :: "nat \<Rightarrow> rat \<Rightarrow> int \<times> int" where
  "sigDigits p x =
     (let e = ilog10 x; n = roundHalfUp (x / pow10 (e - int p + 1))
      in if n = 10 ^ p then (e + 1, 10 ^ (p - 1)) else (e, n))"

definition precisionDigits :: "nat \<Rightarrow> rat \<Rightarrow> string" where
  "precisionDigits p x =
     (if x = 0 then
        (let m = replicate p CHR ''0'' in if p = 1 then m else take 1 m @ ''.'' @ drop 1 m)
      else
        let (e, n) = sigDigits p x; m = digitsOf n in
        if e < - 6 \<or> int p \<le> e then
          (if p \<noteq> 1 then take 1 m @ ''.'' @ drop 1 m else m) @ ''e''
            @ (if 0 < e then ''+'' else ''-'') @ digitsOf \<bar>e\<bar>
        else if e = int p - 1 then m
        else if 0 \<le> e then take (nat e + 1) m @ ''.'' @ drop (nat e + 1) m
        else ''0.'' @ replicate (nat (- (e + 1))) CHR ''0'' @ m)"

definition toPrecision :: "nat \<Rightarrow> jsnum \<Rightarrow> string" where
  "toPrecision p x = (case x of
       NaN \<Rightarrow> ''NaN'' | PInf \<Rightarrow> ''Infinity'' | NInf \<Rightarrow> ''-Infinity''
     | NegZero \<Rightarrow> precisionDigits p 0
     | Fin q \<Rightarrow> (if q < 0 then ''-'' else '''') @ precisionDigits p \<bar>q\<bar>)"

text \<open>
  \<open>toString\<close> prints the shortest digit string that reads back as the same double:
  \<open>shortestCands x k\<close> are the \<open>k\<close>-digit decimals \<open>s * 10 ^ (n - k)\<close> next to \<open>x\<close>
  that round to \<open>x\<close>, and \<open>shortestDigits\<close> takes the least \<open>k\<close> that has one (the
  nearer one of two, the even one on a tie; 17 digits always suffice for a double).
\<close>

definition shortestCands :: "rat \<Rightarrow> nat \<Rightarrow> (int \<times> int) list" where
  "shortestCands x k =
     (let n = ilog10 x + 1;
          lo = \<lfloor>x / pow10 (n - int k)\<rfloor>;
          hi = (if lo + 1 = 10 ^ k then (10 ^ (k - 1), n + 1) else (lo + 1, n))
      in filter (\<lambda>(s, m). 10 ^ (k - 1) \<le> s \<and> s < 10 ^ k
                   \<and> roundDouble (of_int s * pow10 (m - int k)) = Fin x)
           [(lo, n), hi])"

function shortestDigits :: "rat \<Rightarrow> nat \<Rightarrow> int \<times> int \<times> nat" where
  "shortestDigits x k =
     (case shortestCands x k of
        [c] \<Rightarrow> (fst c, snd c, k)
      | [c, d] \<Rightarrow>
          (let dc = \<bar>of_int (fst c) * pow10 (snd c - int k) - x\<bar>;
               dd = \<bar>of_int (fst d) * pow10 (snd d - int k) - x\<bar>
           in if dc < dd \<or> (dc = dd \<and> even (fst c)) then (fst c, snd c, k)
              else (fst d, snd d, k))
      | _ \<Rightarrow> if 17 \<le> k then (\<lfloor>x / pow10 (ilog10 x + 1 - int k)\<rfloor>, ilog10 x + 1, k)
             else shortestDigits x (Suc k))"
  by pat_completeness auto
termination
  by (relation "measure (\<lambda>(x, k). 17 - k)") auto

declare shortestDigits.simps [simp del]

definition numToString :: "rat \<Rightarrow> string" where
  "numToString x =
     (let (s, n, k) = shortestDigits x 1; ds = digitsOf s in
      if int k \<le> n \<and> n \<le> 21 then ds @ replicate (nat n - k) CHR ''0''
      else if 0 < n \<and> n \<le> 21 then take (nat n) ds @ ''.'' @ drop (nat n) ds
      else if - 6 < n \<and> n \<le> 0 then ''0.'' @ replicate (nat (- n)) CHR ''0'' @ ds
      else
        let e = n - 1; es = (if e < 0 then ''-'' else ''+'') @ digitsOf \<bar>e\<bar> in
        if k = 1 then ds @ ''e'' @ es else take 1 ds @ ''.'' @ drop 1 ds @ ''e'' @ es)"

definition toString :: "jsnum \<Rightarrow> string" where
  "toString x = (case x of
       NaN \<Rightarrow> ''NaN'' | PInf \<Rightarrow> ''Infinity'' | NInf \<Rightarrow> ''-Infinity'' | NegZero \<Rightarrow> ''0''
     | Fin q \<Rightarrow> if q = 0 then ''0'' else if q < 0 then ''-'' @ numToString (- q)
                else numToString q)"

text \<open>
  \<open>toFixed f\<close> prints \<open>f\<close> digits after the decimal point (the nearest such decimal,
  the larger one on a tie); from \<open>10 ^ 21\<close> on it falls back to \<open>toString\<close>.
\<close>

definition fixedDigits :: "nat \<Rightarrow> rat \<Rightarrow> string" where
  "fixedDigits f x =
     (if 10 ^ 21 \<le> x then numToString x
      else
        let n = roundHalfUp (x * 10 ^ f);
            m = (if n = 0 then ''0'' else digitsOf n)
        in if f \<noteq> 0 then
             (let m' = (if length m \<le> f then replicate (f + 1 - length m) CHR ''0'' @ m else m);
                  k = length m'
              in take (k - f) m' @ ''.'' @ drop (k - f) m')
           else m)"

definition toFixed :: "nat \<Rightarrow> jsnum \<Rightarrow> string" where
  "toFixed f x = (case x of
       NaN \<Rightarrow> ''NaN'' | PInf \<Rightarrow> ''Infinity'' | NInf \<Rightarrow> ''-Infinity''
     | NegZero \<Rightarrow> fixedDigits f 0
     | Fin q \<Rightarrow> (if q < 0 then ''-'' else '''') @ fixedDigits f \<bar>q\<bar>)"

subsection \<open>The two regular expressions of app.js\<close>

text \<open>
  \<open>fixed.replace(/\.?0+$/, "")\<close> removes the leftmost match of an optional dot
  followed by one or more zeros that reach the end of the string: the final run of zeros,
  and the dot right before that run when there is one. A string that does not end in a
  zero has no match and stays as it is.
\<close>

definition stripZeros :: "string \<Rightarrow> string" where
  "stripZeros s =
     (let r = dropWhile (\<lambda>c. c = CHR ''0'') (rev s) in
      if r = rev s then s
      else rev (case r of c # r' \<Rightarrow> if c = CHR ''.'' then r' else r | [] \<Rightarrow> []))"

text \<open>
  \<open>/^\d|\./.test(last)\<close>: the alternation has the lowest precedence, so the pattern
  matches a string that starts with a digit, or that has a dot anywhere.
\<close>

definition looksNumeric :: "string \<Rightarrow> bool" where
  "looksNumeric t = ((case t of c # _ \<Rightarrow> isDigit c | [] \<Rightarrow> False) \<or> CHR ''.'' \<in> set t)"

section \<open>NumberFormatter: \<open>roundSmart\<close>\<close>

definition maxDigits :: nat where
  "maxDigits = 12"

definition roundSmart :: "jsnum \<Rightarrow> string" where
  "roundSmart n =
     (let s = toPrecision (min maxDigits 15) n;
          num = Number s
      in if \<not> isFinite num then toString n
         else stripZeros (toFixed 12 num))"

section \<open>The session state and the input operations\<close>

text \<open>
  The four module-level variables of app.js. \<open>lastResult\<close> is \<open>null\<close> or a number.
  \<open>updateDisplay\<close> only writes to the page and is left out.
\<close>

record session =
  expressionTokens :: "string list"
  currentInput :: string
  lastResult :: "jsnum option"
  isError :: bool

definition isOperator :: "string \<Rightarrow> bool" where
  "isOperator t = (t \<in> set [''+'', ''-'', ''*'', ''/''])"

definition clearAll :: "session \<Rightarrow> session" where
  "clearAll s = \<lparr>expressionTokens = [], currentInput = [], lastResult = None, isError = False\<rparr>"

definition clearEntry :: "session \<Rightarrow> session" where
  "clearEntry s = (if isError s then s else s\<lparr>currentInput := []\<rparr>)"

definition backspace :: "session \<Rightarrow> session" where
  "backspace s =
     (if isError s then s
      else if currentInput s \<noteq> [] then s\<lparr>currentInput := butlast (currentInput s)\<rparr>
      else if expressionTokens s \<noteq> [] then
        (let lastTok = last (expressionTokens s) in
         if looksNumeric lastTok then
           s\<lparr>currentInput := butlast lastTok, expressionTokens := butlast (expressionTokens s)\<rparr>
         else s\<lparr>expressionTokens := butlast (expressionTokens s)\<rparr>)
      else s)"

definition appendDigit :: "string \<Rightarrow> session \<Rightarrow> session" where
  "appendDigit d s =
     (if isError s then s
      else if currentInput s = ''0'' \<and> d \<noteq> ''.'' then s\<lparr>currentInput := d\<rparr>
      else s\<lparr>currentInput := currentInput s @ d\<rparr>)"

definition appendDot :: "session \<Rightarrow> session" where
  "appendDot s =
     (if isError s then s
      else if CHR ''.'' \<notin> set (currentInput s) then
        s\<lparr>currentInput := (if currentInput s \<noteq> [] then currentInput s @ ''.'' else ''0.'')\<rparr>
      else s)"

definition negate :: "session \<Rightarrow> session" where
  "negate s =
     (if isError s then s
      else if currentInput s \<noteq> [] then
        (if take 1 (currentInput s) = ''-'' then s\<lparr>currentInput := drop 1 (currentInput s)\<rparr>
         else s\<lparr>currentInput := ''-'' @ currentInput s\<rparr>)
      else (case lastResult s of
              Some r \<Rightarrow> s\<lparr>lastResult := Some (js_neg r)\<rparr>
            | None \<Rightarrow> s))"

definition commitCurrent :: "session \<Rightarrow> session" where
  "commitCurrent s =
     (if currentInput s \<noteq> [] then
        s\<lparr>expressionTokens := expressionTokens s @ [currentInput s], currentInput := []\<rparr>
      else s)"

section \<open>PercentResolver: \<open>applyPercent\<close>\<close>

text \<open>
  The two branches of the source: \<open>B\<close> is the pending input, with the operator and the
  number before it at the end of the committed tokens; or \<open>B\<close> is the last committed
  token, with the operator and the number before it one position further back.
\<close>

definition applyPercent :: "session \<Rightarrow> session" where
  "applyPercent s =
     (if isError s then s
      else if currentInput s \<noteq> [] then
        (let B = parseFloat (currentInput s) in
         if \<not> isFinite B then s
         else
           let toks = expressionTokens s;
               ctx = (if 2 \<le> length toks then
                        (let prevOp = toks ! (length toks - 1);
                             prevNum = parseFloat (toks ! (length toks - 2))
                         in if isFinite prevNum \<and> isOperator prevOp then Some (prevNum, prevOp)
                            else None)
                      else None);
               transformed = (case ctx of
                    Some (A, op) \<Rightarrow>
                      if op = ''+'' \<or> op = ''-'' then js_mul A (js_div B (Fin 100))
                      else js_div B (Fin 100)
                  | None \<Rightarrow> js_div B (Fin 100))
           in s\<lparr>currentInput := roundSmart transformed\<rparr>)
      else if expressionTokens s \<noteq> [] then
        (let toks = expressionTokens s;
             lastTok = toks ! (length toks - 1)
         in if \<not> isOperator lastTok then
              (let B = parseFloat lastTok in
               if \<not> isFinite B then s
               else
                 let ctx = (if 3 \<le> length toks then
                              (let prevOp = toks ! (length toks - 2);
                                   prevNum = parseFloat (toks ! (length toks - 3))
                               in if isFinite prevNum \<and> isOperator prevOp
                                  then Some (prevNum, prevOp) else None)
                            else None);
                     transformed = (case ctx of
                          Some (A, op) \<Rightarrow>
                            if op = ''+'' \<or> op = ''-'' then js_mul A (js_div B (Fin 100))
                            else js_div B (Fin 100)
                        | None \<Rightarrow> js_div B (Fin 100))
                 in s\<lparr>expressionTokens := toks[length toks - 1 := roundSmart transformed]\<rparr>)
            else s)
      else s)"

definition pushOperator :: "string \<Rightarrow> session \<Rightarrow> session" where
  "pushOperator op s =
     (if isError s then s
      else if op = ''%'' then applyPercent s
      else if expressionTokens s = [] \<and> currentInput s = [] then
        (if op = ''-'' then s\<lparr>currentInput := ''-''\<rparr> else s)
      else
        let s1 = commitCurrent s; toks = expressionTokens s1 in
        if toks \<noteq> [] \<and> isOperator (last toks) then
          s1\<lparr>expressionTokens := toks[length toks - 1 := op]\<rparr>
        else s1\<lparr>expressionTokens := toks @ [op]\<rparr>)"

section \<open>ExpressionEvaluator: \<open>evaluateTokens\<close>\<close>

text \<open>
  The result objects \<open>{ ok, value, error }\<close> become a datatype; the five error strings
  of the source are the constructors of \<open>evalError\<close>.
\<close>

datatype evalError = MalformedExpression | InvalidNumber | DivisionByZero | UnknownOperator | Overflow

datatype 'a result = Ok 'a | Failure evalError

text \<open>
  What an activation of \<open>evaluateTokens\<close> has in its reach: the array it was passed,
  its two local stacks (\<open>outputs\<close> is the array \<open>output\<close> of the source, renamed
  because the word is reserved) and, the function being declared at module level, the
  four module variables. Both stacks grow at the end (\<open>push\<close>) and shrink at the end
  (\<open>pop\<close>). The inner function \<open>applyOp\<close> works on the same \<open>output\<close>, so all
  parts of the evaluator take the frame and return it with their result.
\<close>

record frame =
  tokens :: "string list"
  outputs :: "jsnum list"
  ops :: "string list"
  globals :: session

definition precedence :: "string \<Rightarrow> nat option" where
  "precedence = map_of [(''+'', 1), (''-'', 1), (''*'', 2), (''/'', 2)]"

text \<open>\<open>precedence[x] >= precedence[t]\<close>; a comparison with \<open>undefined\<close> is false.\<close>

definition precedenceGe :: "string \<Rightarrow> string \<Rightarrow> bool" where
  "precedenceGe x t = (case (precedence x, precedence t) of
       (Some a, Some b) \<Rightarrow> b \<le> a
     | _ \<Rightarrow> False)"

definition applyOp :: "string \<Rightarrow> frame \<Rightarrow> unit result \<times> frame" where
  "applyOp op f =
     (if length (outputs f) < 2 then (Failure MalformedExpression, f)
      else
        let b = last (outputs f);
            a = last (butlast (outputs f));
            f1 = f\<lparr>outputs := butlast (butlast (outputs f))\<rparr>
        in if \<not> isFinite a \<or> \<not> isFinite b then (Failure InvalidNumber, f1)
           else if op = ''+'' then (Ok (), f1\<lparr>outputs := outputs f1 @ [js_add a b]\<rparr>)
           else if op = ''-'' then (Ok (), f1\<lparr>outputs := outputs f1 @ [js_sub a b]\<rparr>)
           else if op = ''*'' then (Ok (), f1\<lparr>outputs := outputs f1 @ [js_mul a b]\<rparr>)
           else if op = ''/'' then
             (if isZero b then (Failure DivisionByZero, f1)
              else (Ok (), f1\<lparr>outputs := outputs f1 @ [js_div a b]\<rparr>))
           else (Failure UnknownOperator, f1))"

text \<open>
  The inner loop of the scan: while the operator on top of \<open>ops\<close> binds at least as
  tightly as the incoming operator \<open>t\<close>, pop it and apply it.
\<close>

function reduceOps :: "string \<Rightarrow> frame \<Rightarrow> unit result \<times> frame" where
  "reduceOps t f =
     (if ops f \<noteq> [] \<and> precedenceGe (last (ops f)) t then
        (case applyOp (last (ops f)) (f\<lparr>ops := butlast (ops f)\<rparr>) of
           (Failure e, f') \<Rightarrow> (Failure e, f')
         | (Ok u, f') \<Rightarrow> reduceOps t f')
      else (Ok (), f))"
  by pat_completeness auto
termination
proof (relation "measure (\<lambda>(t, f). length (ops f))")
  show "wf (measure (\<lambda>(t, f). length (ops f)))"
    by simp
next
  fix t :: string and f f' :: frame and r u
  assume nonempty: "ops f \<noteq> [] \<and> precedenceGe (last (ops f)) t"
    and step: "(r, f') = applyOp (last (ops f)) (f\<lparr>ops := butlast (ops f)\<rparr>)"
  have "ops f' = butlast (ops f)"
    using step by (auto simp: applyOp_def Let_def split: if_splits)
  then show "((t, f'), (t, f)) \<in> measure (\<lambda>(t, f). length (ops f))"
    using nonempty by simp
qed

declare reduceOps.simps [simp del]

lemma applyOp_tokens: "applyOp op f = (r, f') \<Longrightarrow> tokens f' = tokens f"
  by (auto simp: applyOp_def Let_def split: if_splits)

lemma reduceOps_tokens: "reduceOps t f = (r, f') \<Longrightarrow> tokens f' = tokens f"
proof (induction t f arbitrary: r f' rule: reduceOps.induct)
  case (1 t f)
  show ?case
  proof (cases "ops f \<noteq> [] \<and> precedenceGe (last (ops f)) t")
    case False
    with "1.prems" show ?thesis
      by (simp add: reduceOps.simps [of t f])
  next
    case True
    obtain r1 f1 where ap: "applyOp (last (ops f)) (f\<lparr>ops := butlast (ops f)\<rparr>) = (r1, f1)"
      by (cases "applyOp (last (ops f)) (f\<lparr>ops := butlast (ops f)\<rparr>)")
    have tf1: "tokens f1 = tokens f"
      using applyOp_tokens [OF ap] by simp
    show ?thesis
    proof (cases r1)
      case (Failure e)
      with True ap "1.prems" tf1 show ?thesis
        by (simp add: reduceOps.simps [of t f])
    next
      case (Ok u)
      with True ap "1.prems" have "reduceOps t f1 = (r, f')"
        by (simp add: reduceOps.simps [of t f])
      with "1.IH" [OF True ap [symmetric] Ok] tf1 show ?thesis
        by simp
    qed
  qed
qed

text \<open>The \<open>for\<close> loop over the indices of the array that was passed in.\<close>

function scanTokens :: "nat \<Rightarrow> frame \<Rightarrow> unit result \<times> frame" where
  "scanTokens i f =
     (if i < length (tokens f) then
        (let t = tokens f ! i in
         if isOperator t then
           (case reduceOps t f of
              (Failure e, f') \<Rightarrow> (Failure e, f')
            | (Ok u, f') \<Rightarrow> scanTokens (i + 1) (f'\<lparr>ops := ops f' @ [t]\<rparr>))
         else
           (let n = Number t in
            if \<not> isFinite n then (Failure InvalidNumber, f)
            else scanTokens (i + 1) (f\<lparr>outputs := outputs f @ [n]\<rparr>)))
      else (Ok (), f))"
  by pat_completeness auto
termination
proof (relation "measure (\<lambda>(i, f). length (tokens f) - i)")
  show "wf (measure (\<lambda>(i, f). length (tokens f) - i))"
    by simp
next
  fix i :: nat and f f' :: frame and t r u
  assume "i < length (tokens f)" and "(r, f') = reduceOps t f"
  then show "((i + 1, f'\<lparr>ops := ops f' @ [t]\<rparr>), (i, f)) \<in> measure (\<lambda>(i, f). length (tokens f) - i)"
    using reduceOps_tokens [of t f r f'] by simp
next
  fix i :: nat and f :: frame and n
  assume "i < length (tokens f)"
  then show "((i + 1, f\<lparr>outputs := outputs f @ [n]\<rparr>), (i, f)) \<in> measure (\<lambda>(i, f). length (tokens f) - i)"
    by simp
qed

declare scanTokens.simps [simp del]

text \<open>The final loop, which applies whatever is left on \<open>ops\<close>.\<close>

function drainOps :: "frame \<Rightarrow> unit result \<times> frame" where
  "drainOps f =
     (if ops f \<noteq> [] then
        (case applyOp (last (ops f)) (f\<lparr>ops := butlast (ops f)\<rparr>) of
           (Failure e, f') \<Rightarrow> (Failure e, f')
         | (Ok u, f') \<Rightarrow> drainOps f')
      else (Ok (), f))"
  by pat_completeness auto
termination
proof (relation "measure (\<lambda>f. length (ops f))")
  show "wf (measure (\<lambda>f. length (ops f)))"
    by simp
next
  fix f f' :: frame and r u
  assume nonempty: "ops f \<noteq> []"
    and step: "(r, f') = applyOp (last (ops f)) (f\<lparr>ops := butlast (ops f)\<rparr>)"
  have "ops f' = butlast (ops f)"
    using step by (auto simp: applyOp_def Let_def split: if_splits)
  then show "(f', f) \<in> measure (\<lambda>f. length (ops f))"
    using nonempty by simp
qed

declare drainOps.simps [simp del]

text \<open>
  The body of \<open>evaluateTokens\<close>, started in a frame whose two stacks have just been
  created empty.
\<close>

definition evaluateBody :: "frame \<Rightarrow> jsnum result \<times> frame" where
  "evaluateBody f0 =
     (case scanTokens 0 f0 of
        (Failure e, f1) \<Rightarrow> (Failure e, f1)
      | (Ok u, f1) \<Rightarrow>
          (case drainOps f1 of
             (Failure e, f2) \<Rightarrow> (Failure e, f2)
           | (Ok u, f2) \<Rightarrow>
               if length (outputs f2) \<noteq> 1 then (Failure MalformedExpression, f2)
               else
                 let v = outputs f2 ! 0 in
                 if \<not> isFinite v then (Failure Overflow, f2) else (Ok v, f2)))"

text \<open>
  A call with the array \<open>toks\<close>, made while the module variables have the values
  \<open>g\<close>. When \<open>equals\<close> calls, \<open>toks\<close> is the very array \<open>expressionTokens\<close>:
  the frame then holds it twice, as \<open>tokens\<close> and within \<open>globals\<close>, and what the
  call leaves in \<open>tokens\<close> is what the caller finds in \<open>expressionTokens\<close>.
\<close>

definition evaluateCall :: "session \<Rightarrow> string list \<Rightarrow> jsnum result \<times> frame" where
  "evaluateCall g toks = evaluateBody \<lparr>tokens = toks, outputs = [], ops = [], globals = g\<rparr>"

section \<open>CalculatorSession: \<open>equals\<close> and the event handlers\<close>

text \<open>
  \<open>equals\<close> calls the evaluator on the array \<open>expressionTokens\<close> and goes on with the
  module variables as the call leaves them, the array included.
\<close>

definition equals :: "session \<Rightarrow> session" where
  "equals s =
     (if isError s then s
      else
        let s1 = commitCurrent s;
            s2 = (if expressionTokens s1 \<noteq> [] \<and> isOperator (last (expressionTokens s1))
                  then s1\<lparr>expressionTokens := butlast (expressionTokens s1)\<rparr> else s1)
        in if expressionTokens s2 = [] then
             s2\<lparr>lastResult := (case lastResult s2 of Some r \<Rightarrow> Some r | None \<Rightarrow> Some (Fin 0))\<rparr>
           else
             (let (res, f) = evaluateCall s2 (expressionTokens s2);
                  s3 = (globals f)\<lparr>expressionTokens := tokens f\<rparr>
              in case res of
                   Failure e \<Rightarrow> s3\<lparr>isError := True, lastResult := None\<rparr>
                 | Ok v \<Rightarrow>
                     s3\<lparr>lastResult := Some v, expressionTokens := [roundSmart v], currentInput := []\<rparr>))"

text \<open>
  The events the page sends, one per key or button (\<open>handleKey\<close> and the click
  handler): each is one call of an operation above. The button \<open>%\<close> goes through
  \<open>pushOperator\<close>, the key \<open>%\<close> calls \<open>applyPercent\<close> directly.
\<close>

datatype event =
    Digit string | Dot | Operator string | Percent | Equals
  | ClearAll | ClearEntry | Backspace | Negate

fun handle :: "event \<Rightarrow> session \<Rightarrow> session" where
  "handle (Digit d) s = appendDigit d s"
| "handle Dot s = appendDot s"
| "handle (Operator op) s = pushOperator op s"
| "handle Percent s = applyPercent s"
| "handle Equals s = equals s"
| "handle ClearAll s = clearAll s"
| "handle ClearEntry s = clearEntry s"
| "handle Backspace s = backspace s"
| "handle Negate s = negate s"

definition run :: "event list \<Rightarrow> session \<Rightarrow> session" where
  "run evs s = fold handle evs s"

text \<open>The state in which the page starts: the last line of app.js calls \<open>clearAll\<close>.\<close>

definition initial :: session where
  "initial = \<lparr>expressionTokens = [], currentInput = [], lastResult = None, isError = False\<rparr>"

section \<open>Notions used to state the properties\<close>

text \<open>
  The value that a call of \<open>evaluateTokens\<close> returns for a token array. The module
  variables are taken as the page starts with them; they do not enter the result (lemma
  \<open>evaluateCall_result\<close> below).
\<close>

definition evaluateTokens :: "string list \<Rightarrow> jsnum result" where
  "evaluateTokens toks = fst (evaluateCall initial toks)"

text \<open>Two operator tokens next to each other somewhere in a token sequence.\<close>

definition hasAdjacentOperators :: "string list \<Rightarrow> bool" where
  "hasAdjacentOperators toks =
     list_ex (\<lambda>i. isOperator (toks ! i) \<and> isOperator (toks ! (i + 1))) [0 ..< length toks - 1]"

text \<open>
  Pressing backspace again and again until the pending input and the committed tokens
  are both empty. The loop need not stop for every state (in the error state backspace
  changes nothing), so it returns an option: \<open>None\<close> stands for running on for ever.
\<close>

partial_function (option) backspaceUntilEmpty :: "session \<Rightarrow> session option" where
  "backspaceUntilEmpty s =
     (if currentInput s = [] \<and> expressionTokens s = [] then Some s
      else backspaceUntilEmpty (backspace s))"

definition sessionSize :: "session \<Rightarrow> nat" where
  "sessionSize s = length (currentInput s) + (\<Sum>t\<leftarrow>expressionTokens s. Suc (length t))"

text \<open>
  The tokens \<open>equals\<close> hands to the evaluator: the committed tokens after the pending
  input has been committed and one operator at the end has been removed.
\<close>

definition finalTokens :: "session \<Rightarrow> string list" where
  "finalTokens s =
     (let toks = expressionTokens (commitCurrent s) in
      if toks \<noteq> [] \<and> isOperator (last toks) then butlast toks else toks)"

subsection \<open>The percent rule in the words of the specification\<close>

text \<open>
  \<open>B\<close> is the pending input if there is one, otherwise the last committed token
  unless that is an operator. The tokens before \<open>B\<close> are all committed tokens (when
  \<open>B\<close> is pending) or all but the last; if the last of them is an operator \<open>op\<close> and
  the one before it reads as a finite number \<open>A\<close>, these two govern the percent. The
  result is \<open>A * (B / 100)\<close> under \<open>+\<close> or \<open>-\<close> and \<open>B / 100\<close> otherwise; formatted,
  it replaces \<open>B\<close> where \<open>B\<close> was found. A \<open>B\<close> that is not a finite number
  changes nothing.
\<close>

datatype operandPlace = PendingInput | LastToken

definition percentOperand :: "session \<Rightarrow> (operandPlace \<times> string) option" where
  "percentOperand s =
     (if currentInput s \<noteq> [] then Some (PendingInput, currentInput s)
      else if expressionTokens s \<noteq> [] \<and> \<not> isOperator (last (expressionTokens s))
        then Some (LastToken, last (expressionTokens s))
      else None)"

definition percentContext :: "session \<Rightarrow> (jsnum \<times> string) option" where
  "percentContext s =
     (let before = (if currentInput s \<noteq> [] then expressionTokens s
                    else butlast (expressionTokens s))
      in if 2 \<le> length before then
           (let op = last before; A = parseFloat (last (butlast before))
            in if isFinite A \<and> isOperator op then Some (A, op) else None)
         else None)"

definition percentOf :: "(jsnum \<times> string) option \<Rightarrow> jsnum \<Rightarrow> jsnum" where
  "percentOf ctx B = (case ctx of
       Some (A, op) \<Rightarrow>
         if op = ''+'' \<or> op = ''-'' then js_mul A (js_div B (Fin 100))
         else js_div B (Fin 100)
     | None \<Rightarrow> js_div B (Fin 100))"

definition replaceOperand :: "operandPlace \<Rightarrow> string \<Rightarrow> session \<Rightarrow> session" where
  "replaceOperand place r s = (case place of
       PendingInput \<Rightarrow> s\<lparr>currentInput := r\<rparr>
     | LastToken \<Rightarrow> s\<lparr>expressionTokens := butlast (expressionTokens s) @ [r]\<rparr>)"

definition percentSpec :: "session \<Rightarrow> session" where
  "percentSpec s =
     (if isError s then s
      else case percentOperand s of
        None \<Rightarrow> s
      | Some (place, tok) \<Rightarrow>
          let B = parseFloat tok in
          if \<not> isFinite B then s
          else replaceOperand place (roundSmart (percentOf (percentContext s) B)) s)"

subsection \<open>Infix evaluation in the words of the specification\<close>

text \<open>
  A well-formed expression is a number token followed by any number of pairs of an
  operator and a number token.
\<close>

definition isAdditive :: "string \<Rightarrow> bool" where
  "isAdditive op = (op = ''+'' \<or> op = ''-'')"

definition isMultiplicative :: "string \<Rightarrow> bool" where
  "isMultiplicative op = (op = ''*'' \<or> op = ''/'')"

fun operatorTail :: "string list \<Rightarrow> bool" where
  "operatorTail [] = True"
| "operatorTail [op] = False"
| "operatorTail (op # t # rest) = (isOperator op \<and> \<not> isOperator t \<and> operatorTail rest)"

definition wellFormed :: "string list \<Rightarrow> bool" where
  "wellFormed ts = (case ts of [] \<Rightarrow> False | t # rest \<Rightarrow> \<not> isOperator t \<and> operatorTail rest)"

text \<open>
  The reference evaluator reads such an expression the way the grammar
  \<open>sum ::= product { (+|-) product }\<close>, \<open>product ::= number { (*|/) number }\<close>
  says: \<open>specProduct\<close> folds a run of \<open>*\<close> and \<open>/\<close> from the left into one value
  and stops at the first other token, \<open>specSum\<close> folds the products from the left with
  \<open>+\<close> and \<open>-\<close>. \<open>operand\<close> reads a number token and \<open>binop\<close> applies one
  operator, with the failures of the specification (operand not finite, divisor zero).
\<close>

definition operand :: "string \<Rightarrow> jsnum result" where
  "operand t = (let n = Number t in if isFinite n then Ok n else Failure InvalidNumber)"

definition binop :: "string \<Rightarrow> jsnum \<Rightarrow> jsnum \<Rightarrow> jsnum result" where
  "binop op a b =
     (if \<not> isFinite a \<or> \<not> isFinite b then Failure InvalidNumber
      else if op = ''+'' then Ok (js_add a b)
      else if op = ''-'' then Ok (js_sub a b)
      else if op = ''*'' then Ok (js_mul a b)
      else if op = ''/'' then (if isZero b then Failure DivisionByZero else Ok (js_div a b))
      else Failure UnknownOperator)"

fun specProduct :: "jsnum \<Rightarrow> string list \<Rightarrow> (jsnum \<times> string list) result" where
  "specProduct acc (op # t # rest) =
     (if isMultiplicative op then
        (case operand t of
           Failure e \<Rightarrow> Failure e
         | Ok n \<Rightarrow> (case binop op acc n of
                     Failure e \<Rightarrow> Failure e
                   | Ok v \<Rightarrow> specProduct v rest))
      else Ok (acc, op # t # rest))"
| "specProduct acc rest = Ok (acc, rest)"

lemma specProduct_length: "specProduct acc ts = Ok (v, r) \<Longrightarrow> length r \<le> length ts"
  by (induction acc ts rule: specProduct.induct)
    (auto split: if_splits result.splits, fastforce)

function specSum :: "jsnum \<Rightarrow> string list \<Rightarrow> jsnum result" where
  "specSum acc (op # t # rest) =
     (case operand t of
        Failure e \<Rightarrow> Failure e
      | Ok n \<Rightarrow> (case specProduct n rest of
                  Failure e \<Rightarrow> Failure e
                | Ok (v, rest') \<Rightarrow> (case binop op acc v of
                                     Failure e \<Rightarrow> Failure e
                                   | Ok w \<Rightarrow> specSum w rest')))"
| "specSum acc [] = Ok acc"
| "specSum acc [t] = Ok acc"
  by pat_completeness auto
termination
proof (relation "measure (\<lambda>(acc, ts). length ts)")
  show "wf (measure (\<lambda>(acc, ts). length ts))"
    by simp
next
  fix acc :: jsnum and op t :: string and rest :: "string list" and n p v rest' w
  assume "specProduct n rest = Ok p" and "(v, rest') = p"
  then have "length rest' \<le> length rest"
    using specProduct_length [of n rest v rest'] by simp
  then show "((w, rest'), (acc, op # t # rest)) \<in> measure (\<lambda>(acc, ts). length ts)"
    by simp
qed

definition specEvaluate :: "string list \<Rightarrow> jsnum result" where
  "specEvaluate ts = (case ts of
       [] \<Rightarrow> Failure MalformedExpression
     | t # rest \<Rightarrow>
         (case operand t of
            Failure e \<Rightarrow> Failure e
          | Ok n \<Rightarrow> (case specProduct n rest of
                      Failure e \<Rightarrow> Failure e
                    | Ok (v, rest') \<Rightarrow> (case specSum v rest' of
                                         Failure e \<Rightarrow> Failure e
                                       | Ok w \<Rightarrow> if isFinite w then Ok w else Failure Overflow))))"

text \<open>A division whose right-hand token reads as zero, somewhere in the tokens.\<close>

fun dividesByZero :: "string list \<Rightarrow> bool" where
  "dividesByZero (a # b # rest) = ((a = ''/'' \<and> isZero (Number b)) \<or> dividesByZero (b # rest))"
| "dividesByZero ts = False"

text \<open>The two failures a division by zero can end in.\<close>

definition zeroDivisionFailure :: "jsnum result \<Rightarrow> bool" where
  "zeroDivisionFailure r = (r = Failure DivisionByZero \<or> r = Failure InvalidNumber)"

text \<open>
  The left operand of a division, as the evaluator has it when it comes to apply the
  division. \<open>dividend pre\<close> works through the tokens \<open>pre\<close> that stand before the
  division sign, from left to right. A multiplication or division is applied to the
  running product as soon as its right operand is read. At an addition or subtraction the
  sum that was waiting is completed with the running product, and a new product starts
  with the next operand. The sum that waits at the end is left alone, since the division
  binds tighter. A step that fails ends it all with that failure. In
  \<open>productBefore waiting acc rest\<close>, \<open>acc\<close> is the running product and \<open>waiting\<close>
  the sum and the operator that wait for it, if any.
\<close>

fun productBefore :: "(jsnum \<times> string) option \<Rightarrow> jsnum \<Rightarrow> string list \<Rightarrow> jsnum result" where
  "productBefore waiting acc (op # t # rest) =
     (if isMultiplicative op then
        (case operand t of
           Failure e \<Rightarrow> Failure e
         | Ok n \<Rightarrow> (case binop op acc n of
                     Failure e \<Rightarrow> Failure e
                   | Ok v \<Rightarrow> productBefore waiting v rest))
      else
        (case (case waiting of None \<Rightarrow> Ok acc | Some (s, aop) \<Rightarrow> binop aop s acc) of
           Failure e \<Rightarrow> Failure e
         | Ok w \<Rightarrow> (case operand t of
                     Failure e \<Rightarrow> Failure e
                   | Ok n \<Rightarrow> productBefore (Some (w, op)) n rest)))"
| "productBefore waiting acc rest = Ok acc"

definition dividend :: "string list \<Rightarrow> jsnum result" where
  "dividend pre = (case pre of
       [] \<Rightarrow> Failure MalformedExpression
     | t # rest \<Rightarrow> (case operand t of
                     Failure e \<Rightarrow> Failure e
                   | Ok n \<Rightarrow> productBefore None n rest))"

text \<open>
  What dividing by a zero token makes of that left operand. A failure is passed on. The
  operands are checked before the divisor is, so a product that has overflowed to an
  infinity is reported as invalid-number; a finite one gives division-by-zero.
\<close>

definition divideByZero :: "jsnum result \<Rightarrow> jsnum result" where
  "divideByZero r = (case r of
       Failure e \<Rightarrow> Failure e
     | Ok a \<Rightarrow> if isFinite a then Failure DivisionByZero else Failure InvalidNumber)"

subsection \<open>Auxiliary notions for the proofs about the evaluator\<close>

text \<open>
  \<open>evaluateFrom i f\<close> is what \<open>evaluateTokens\<close> returns when its scan stands at index
  \<open>i\<close> with frame \<open>f\<close>. \<open>afterProduct\<close> and \<open>afterSum\<close> are what the reference
  evaluator returns when it has read a value \<open>acc\<close> of the current product, without or
  with a sum \<open>s\<close> and an operator \<open>aop\<close> waiting for that product.
\<close>

definition evaluateFrom :: "nat \<Rightarrow> frame \<Rightarrow> jsnum result" where
  "evaluateFrom i f =
     (case scanTokens i f of
        (Failure e, f1) \<Rightarrow> Failure e
      | (Ok u, f1) \<Rightarrow>
          (case drainOps f1 of
             (Failure e, f2) \<Rightarrow> Failure e
           | (Ok u, f2) \<Rightarrow>
               if length (outputs f2) \<noteq> 1 then Failure MalformedExpression
               else if \<not> isFinite (outputs f2 ! 0) then Failure Overflow
               else Ok (outputs f2 ! 0)))"

definition finish :: "jsnum result \<Rightarrow> jsnum result" where
  "finish r = (case r of
       Failure e \<Rightarrow> Failure e
     | Ok w \<Rightarrow> if isFinite w then Ok w else Failure Overflow)"

definition afterProduct :: "jsnum \<Rightarrow> string list \<Rightarrow> jsnum result" where
  "afterProduct acc rest = (case specProduct acc rest of
       Failure e \<Rightarrow> Failure e
     | Ok (v, r) \<Rightarrow> finish (specSum v r))"

definition afterSum :: "jsnum \<Rightarrow> string \<Rightarrow> jsnum \<Rightarrow> string list \<Rightarrow> jsnum result" where
  "afterSum s aop acc rest = (case specProduct acc rest of
       Failure e \<Rightarrow> Failure e
     | Ok (v, r) \<Rightarrow> (case binop aop s v of
                      Failure e \<Rightarrow> Failure e
                    | Ok w \<Rightarrow> finish (specSum w r)))"

section \<open>The frame of \<open>evaluateTokens\<close>\<close>

text \<open>
  Every part of the evaluator returns the frame it was given with nothing changed but the
  two stacks (the lemmas \<open>_writes\<close>), and the module variables in the frame do not
  enter what it computes (the lemmas \<open>_globals\<close>).
\<close>

lemma globals_last [simp]:
  "f\<lparr>globals := g, ops := os\<rparr> = f\<lparr>ops := os, globals := g\<rparr>"
  "f\<lparr>globals := g, outputs := out\<rparr> = f\<lparr>outputs := out, globals := g\<rparr>"
  by (cases f; simp)+

lemma applyOp_writes:
  "applyOp op f = (r, f') \<Longrightarrow> f' = f\<lparr>outputs := outputs f', ops := ops f'\<rparr>"
  by (auto simp: applyOp_def Let_def split: if_splits)

lemma applyOp_globals:
  "applyOp op (f\<lparr>globals := g\<rparr>) = (fst (applyOp op f), (snd (applyOp op f))\<lparr>globals := g\<rparr>)"
  by (simp add: applyOp_def Let_def)

lemma reduceOps_writes:
  "reduceOps t f = (r, f') \<Longrightarrow> f' = f\<lparr>outputs := outputs f', ops := ops f'\<rparr>"
proof (induction t f arbitrary: r f' rule: reduceOps.induct)
  case (1 t f)
  show ?case
  proof (cases "ops f \<noteq> [] \<and> precedenceGe (last (ops f)) t")
    case False
    with "1.prems" show ?thesis
      by (auto simp: reduceOps.simps [of t f])
  next
    case True
    obtain r1 f1 where ap: "applyOp (last (ops f)) (f\<lparr>ops := butlast (ops f)\<rparr>) = (r1, f1)"
      by (cases "applyOp (last (ops f)) (f\<lparr>ops := butlast (ops f)\<rparr>)")
    have w1: "f1 = f\<lparr>outputs := outputs f1, ops := ops f1\<rparr>"
      using applyOp_writes [OF ap] by simp
    show ?thesis
    proof (cases r1)
      case (Failure e)
      with True ap "1.prems" w1 show ?thesis
        by (simp add: reduceOps.simps [of t f])
    next
      case (Ok u)
      with True ap "1.prems" have "reduceOps t f1 = (r, f')"
        by (simp add: reduceOps.simps [of t f])
      from "1.IH" [OF True ap [symmetric] Ok this]
      have "f' = f1\<lparr>outputs := outputs f', ops := ops f'\<rparr>" .
      then show ?thesis
        by (subst (asm) w1) simp
    qed
  qed
qed

lemma reduceOps_globals:
  "reduceOps t (f\<lparr>globals := g\<rparr>) = (fst (reduceOps t f), (snd (reduceOps t f))\<lparr>globals := g\<rparr>)"
proof (induction t f rule: reduceOps.induct)
  case (1 t f)
  show ?case
  proof (cases "ops f \<noteq> [] \<and> precedenceGe (last (ops f)) t")
    case False
    then show ?thesis
      by (auto simp: reduceOps.simps [of t f] reduceOps.simps [of t "f\<lparr>globals := g\<rparr>"])
  next
    case True
    obtain r1 f1 where ap: "applyOp (last (ops f)) (f\<lparr>ops := butlast (ops f)\<rparr>) = (r1, f1)"
      by (cases "applyOp (last (ops f)) (f\<lparr>ops := butlast (ops f)\<rparr>)")
    then have apl: "applyOp (last (ops f)) (f\<lparr>globals := g, ops := butlast (ops f)\<rparr>) = (r1, f1\<lparr>globals := g\<rparr>)"
      using applyOp_globals [of "last (ops f)" g "f\<lparr>ops := butlast (ops f)\<rparr>"] by simp
    show ?thesis
    proof (cases r1)
      case (Failure e)
      with True ap apl show ?thesis
        by (simp add: reduceOps.simps [of t f] reduceOps.simps [of t "f\<lparr>globals := g\<rparr>"])
    next
      case (Ok u)
      with True ap apl "1.IH" [OF True ap [symmetric] Ok] show ?thesis
        by (simp add: reduceOps.simps [of t f] reduceOps.simps [of t "f\<lparr>globals := g\<rparr>"])
    qed
  qed
qed

lemma scanTokens_writes:
  "scanTokens i f = (r, f') \<Longrightarrow> f' = f\<lparr>outputs := outputs f', ops := ops f'\<rparr>"
proof (induction i f arbitrary: r f' rule: scanTokens.induct)
  case (1 i f)
  show ?case
  proof (cases "i < length (tokens f)")
    case False
    with "1.prems" show ?thesis
      by (auto simp: scanTokens.simps [of i f])
  next
    case inRange: True
    show ?thesis
    proof (cases "isOperator (tokens f ! i)")
      case isOp: True
      obtain r1 f1 where red: "reduceOps (tokens f ! i) f = (r1, f1)"
        by (cases "reduceOps (tokens f ! i) f")
      note w1 = reduceOps_writes [OF red]
      show ?thesis
      proof (cases r1)
        case (Failure e)
        with inRange isOp red "1.prems" w1 show ?thesis
          by (simp add: scanTokens.simps [of i f])
      next
        case (Ok u)
        with inRange isOp red "1.prems"
        have "scanTokens (i + 1) (f1\<lparr>ops := ops f1 @ [tokens f ! i]\<rparr>) = (r, f')"
          by (simp add: scanTokens.simps [of i f])
        from "1.IH"(1) [OF inRange refl isOp red [symmetric] Ok this]
        have "f' = f1\<lparr>outputs := outputs f', ops := ops f'\<rparr>"
          by simp
        then show ?thesis
          by (subst (asm) w1) simp
      qed
    next
      case noOp: False
      show ?thesis
      proof (cases "isFinite (Number (tokens f ! i))")
        case False
        with inRange noOp "1.prems" show ?thesis
          by (auto simp: scanTokens.simps [of i f])
      next
        case True
        with inRange noOp "1.prems"
        have "scanTokens (i + 1) (f\<lparr>outputs := outputs f @ [Number (tokens f ! i)]\<rparr>) = (r, f')"
          by (simp add: scanTokens.simps [of i f])
        from "1.IH"(2) [OF inRange refl noOp refl _ this] True show ?thesis
          by simp
      qed
    qed
  qed
qed

lemma scanTokens_globals:
  "scanTokens i (f\<lparr>globals := g\<rparr>) = (fst (scanTokens i f), (snd (scanTokens i f))\<lparr>globals := g\<rparr>)"
proof (induction i f rule: scanTokens.induct)
  case (1 i f)
  note unfold = scanTokens.simps [of i f] scanTokens.simps [of i "f\<lparr>globals := g\<rparr>"]
  show ?case
  proof (cases "i < length (tokens f)")
    case False
    then show ?thesis
      by (simp add: unfold Let_def)
  next
    case inRange: True
    show ?thesis
    proof (cases "isOperator (tokens f ! i)")
      case isOp: True
      obtain r1 f1 where red: "reduceOps (tokens f ! i) f = (r1, f1)"
        by (cases "reduceOps (tokens f ! i) f")
      then have redl: "reduceOps (tokens f ! i) (f\<lparr>globals := g\<rparr>) = (r1, f1\<lparr>globals := g\<rparr>)"
        using reduceOps_globals [of "tokens f ! i" g f] by simp
      show ?thesis
      proof (cases r1)
        case (Failure e)
        with inRange isOp red redl show ?thesis
          by (simp add: unfold Let_def)
      next
        case (Ok u)
        with inRange isOp red redl "1.IH"(1) [OF inRange refl isOp red [symmetric] Ok] show ?thesis
          by (simp add: unfold Let_def)
      qed
    next
      case noOp: False
      show ?thesis
      proof (cases "isFinite (Number (tokens f ! i))")
        case False
        with inRange noOp show ?thesis
          by (simp add: unfold Let_def)
      next
        case True
        with inRange noOp "1.IH"(2) [OF inRange refl noOp refl] show ?thesis
          by (simp add: unfold Let_def)
      qed
    qed
  qed
qed

lemma drainOps_writes:
  "drainOps f = (r, f') \<Longrightarrow> f' = f\<lparr>outputs := outputs f', ops := ops f'\<rparr>"
proof (induction f arbitrary: r f' rule: drainOps.induct)
  case (1 f)
  show ?case
  proof (cases "ops f \<noteq> []")
    case False
    with "1.prems" show ?thesis
      by (auto simp: drainOps.simps [of f])
  next
    case True
    obtain r1 f1 where ap: "applyOp (last (ops f)) (f\<lparr>ops := butlast (ops f)\<rparr>) = (r1, f1)"
      by (cases "applyOp (last (ops f)) (f\<lparr>ops := butlast (ops f)\<rparr>)")
    have w1: "f1 = f\<lparr>outputs := outputs f1, ops := ops f1\<rparr>"
      using applyOp_writes [OF ap] by simp
    show ?thesis
    proof (cases r1)
      case (Failure e)
      with True ap "1.prems" w1 show ?thesis
        by (simp add: drainOps.simps [of f])
    next
      case (Ok u)
      with True ap "1.prems" have "drainOps f1 = (r, f')"
        by (simp add: drainOps.simps [of f])
      from "1.IH" [OF True ap [symmetric] Ok this]
      have "f' = f1\<lparr>outputs := outputs f', ops := ops f'\<rparr>" .
      then show ?thesis
        by (subst (asm) w1) simp
    qed
  qed
qed

lemma drainOps_globals:
  "drainOps (f\<lparr>globals := g\<rparr>) = (fst (drainOps f), (snd (drainOps f))\<lparr>globals := g\<rparr>)"
proof (induction f rule: drainOps.induct)
  case (1 f)
  note unfold = drainOps.simps [of f] drainOps.simps [of "f\<lparr>globals := g\<rparr>"]
  show ?case
  proof (cases "ops f \<noteq> []")
    case False
    then show ?thesis
      by (simp add: unfold)
  next
    case True
    obtain r1 f1 where ap: "applyOp (last (ops f)) (f\<lparr>ops := butlast (ops f)\<rparr>) = (r1, f1)"
      by (cases "applyOp (last (ops f)) (f\<lparr>ops := butlast (ops f)\<rparr>)")
    then have apl: "applyOp (last (ops f)) (f\<lparr>globals := g, ops := butlast (ops f)\<rparr>) = (r1, f1\<lparr>globals := g\<rparr>)"
      using applyOp_globals [of "last (ops f)" g "f\<lparr>ops := butlast (ops f)\<rparr>"] by simp
    show ?thesis
    proof (cases r1)
      case (Failure e)
      with True ap apl show ?thesis
        by (simp add: unfold)
    next
      case (Ok u)
      with True ap apl "1.IH" [OF True ap [symmetric] Ok] show ?thesis
        by (simp add: unfold)
    qed
  qed
qed

lemma evaluateBody_writes:
  "evaluateBody f = (r, f') \<Longrightarrow> f' = f\<lparr>outputs := outputs f', ops := ops f'\<rparr>"
proof -
  assume run: "evaluateBody f = (r, f')"
  obtain r1 f1 where sc: "scanTokens 0 f = (r1, f1)"
    by (cases "scanTokens 0 f")
  note w1 = scanTokens_writes [OF sc]
  obtain r2 f2 where dr: "drainOps f1 = (r2, f2)"
    by (cases "drainOps f1")
  have w2: "f2 = f\<lparr>outputs := outputs f2, ops := ops f2\<rparr>"
    using drainOps_writes [OF dr] by (subst (asm) w1) simp
  from run sc dr have "f' = f1 \<or> f' = f2"
    by (auto simp: evaluateBody_def Let_def split: result.splits if_splits)
  with w1 w2 show ?thesis
    by auto
qed

lemma evaluateBody_globals:
  "evaluateBody (f\<lparr>globals := g\<rparr>) = (fst (evaluateBody f), (snd (evaluateBody f))\<lparr>globals := g\<rparr>)"
proof -
  obtain r1 f1 where sc: "scanTokens 0 f = (r1, f1)"
    by (cases "scanTokens 0 f")
  then have scl: "scanTokens 0 (f\<lparr>globals := g\<rparr>) = (r1, f1\<lparr>globals := g\<rparr>)"
    using scanTokens_globals [of 0 g f] by simp
  obtain r2 f2 where dr: "drainOps f1 = (r2, f2)"
    by (cases "drainOps f1")
  then have drl: "drainOps (f1\<lparr>globals := g\<rparr>) = (r2, f2\<lparr>globals := g\<rparr>)"
    using drainOps_globals [of g f1] by simp
  show ?thesis
    using sc scl dr drl
    by (cases r1; cases r2) (simp_all add: evaluateBody_def Let_def)
qed

lemma evaluateCall_frame:
  "tokens (snd (evaluateCall g toks)) = toks \<and> globals (snd (evaluateCall g toks)) = g"
proof -
  obtain r f' where run: "evaluateCall g toks = (r, f')"
    by (cases "evaluateCall g toks")
  then have "f' = \<lparr>tokens = toks, outputs = [], ops = [], globals = g\<rparr>
      \<lparr>outputs := outputs f', ops := ops f'\<rparr>"
    using evaluateBody_writes [of "\<lparr>tokens = toks, outputs = [], ops = [], globals = g\<rparr>" r f']
    by (simp add: evaluateCall_def)
  then have "f' = \<lparr>tokens = toks, outputs = outputs f', ops = ops f', globals = g\<rparr>"
    by simp
  then have "tokens f' = toks \<and> globals f' = g"
    by (metis frame.select_convs(1,4))
  with run show ?thesis
    by simp
qed

lemma evaluateCall_result: "fst (evaluateCall g toks) = evaluateTokens toks"
  using evaluateBody_globals [of g "\<lparr>tokens = toks, outputs = [], ops = [], globals = initial\<rparr>"]
  by (simp add: evaluateCall_def evaluateTokens_def)

lemma six_by_zero_initial:
  "fst (evaluateCall initial [''6'', ''/'', ''0'']) = Failure DivisionByZero"
  by code_simp

text \<open>
  C10. A call of \<open>evaluateTokens\<close> runs in a frame that holds the array it was passed,
  its two stacks and the four module variables. Whatever the tokens and the module
  variables are, and whichever way the evaluation ends, the array in the final frame is
  the array that was passed, and the module variables in it are what they were at the
  call. The result does not depend on the module variables either: two calls with the
  same array return the same tagged result, whatever the session is at each.
\<close>

theorem evaluateTokens_leaves_its_argument:
  "tokens (snd (evaluateCall g toks)) = toks
   \<and> globals (snd (evaluateCall g toks)) = g
   \<and> fst (evaluateCall g toks) = fst (evaluateCall g' toks)"
  using evaluateCall_frame [of g toks] evaluateCall_result [of g toks]
    evaluateCall_result [of g' toks]
  by simp

text \<open>
  An instance: the call that \<open>equals\<close> makes after the keys \<open>5 = 6 / 0\<close>, compared with
  the call on the same tokens in the state the page starts in.
\<close>

theorem evaluateTokens_leaves_its_argument_witness:
  "tokens (snd (evaluateCall
       \<lparr>expressionTokens = [''6'', ''/'', ''0''], currentInput = [], lastResult = Some (Fin 5), isError = False\<rparr>
       [''6'', ''/'', ''0''])) = [''6'', ''/'', ''0'']
   \<and> globals (snd (evaluateCall
       \<lparr>expressionTokens = [''6'', ''/'', ''0''], currentInput = [], lastResult = Some (Fin 5), isError = False\<rparr>
       [''6'', ''/'', ''0'']))
     = \<lparr>expressionTokens = [''6'', ''/'', ''0''], currentInput = [], lastResult = Some (Fin 5), isError = False\<rparr>
   \<and> fst (evaluateCall
       \<lparr>expressionTokens = [''6'', ''/'', ''0''], currentInput = [], lastResult = Some (Fin 5), isError = False\<rparr>
       [''6'', ''/'', ''0'']) = Failure DivisionByZero"
  using evaluateTokens_leaves_its_argument [of
      "\<lparr>expressionTokens = [''6'', ''/'', ''0''], currentInput = [], lastResult = Some (Fin 5), isError = False\<rparr>"
      "[''6'', ''/'', ''0'']" initial]
    six_by_zero_initial
  by simp

text \<open>
  With that, \<open>equals\<close> comes to this: it goes on from the state in which it made the
  call, with the value of the call.
\<close>

lemma evaluateCall_returns:
  "evaluateCall g toks = (r, f) \<Longrightarrow> r = evaluateTokens toks \<and> tokens f = toks \<and> globals f = g"
  using evaluateCall_frame [of g toks] evaluateCall_result [of g toks] by simp

lemma equals_value:
  "equals s =
     (if isError s then s
      else
        let s1 = commitCurrent s;
            s2 = (if expressionTokens s1 \<noteq> [] \<and> isOperator (last (expressionTokens s1))
                  then s1\<lparr>expressionTokens := butlast (expressionTokens s1)\<rparr> else s1)
        in if expressionTokens s2 = [] then
             s2\<lparr>lastResult := (case lastResult s2 of Some r \<Rightarrow> Some r | None \<Rightarrow> Some (Fin 0))\<rparr>
           else
             (case evaluateTokens (expressionTokens s2) of
                Failure e \<Rightarrow> s2\<lparr>isError := True, lastResult := None\<rparr>
              | Ok v \<Rightarrow>
                  s2\<lparr>lastResult := Some v, expressionTokens := [roundSmart v], currentInput := []\<rparr>))"
proof -
  have call: "(let (res, f) = evaluateCall g toks;
                   s3 = (globals f)\<lparr>expressionTokens := tokens f\<rparr>
               in case res of
                    Failure e \<Rightarrow> s3\<lparr>isError := True, lastResult := None\<rparr>
                  | Ok v \<Rightarrow> s3\<lparr>lastResult := Some v, expressionTokens := [roundSmart v],
                                   currentInput := []\<rparr>)
      = (case evaluateTokens toks of
           Failure e \<Rightarrow> g\<lparr>expressionTokens := toks, isError := True, lastResult := None\<rparr>
         | Ok v \<Rightarrow> g\<lparr>lastResult := Some v, expressionTokens := [roundSmart v],
                          currentInput := []\<rparr>)" for g toks
  proof -
    obtain r f where run: "evaluateCall g toks = (r, f)"
      by (cases "evaluateCall g toks")
    from evaluateCall_returns [OF run] run show ?thesis
      by (simp split: result.splits)
  qed
  show ?thesis
    unfolding equals_def call
    by (simp add: Let_def cong: result.case_cong)
qed

section \<open>Properties of the session operations\<close>

text \<open>
  C4. In a state whose error flag is set, every operation other than clear-all
  (\<open>appendDigit\<close>, \<open>appendDot\<close>, \<open>negate\<close>, \<open>pushOperator\<close>, percent,
  \<open>equals\<close>, \<open>clearEntry\<close>, \<open>backspace\<close>) returns the state as it was: tokens,
  pending input, last result and error flag. Clear-all is the one operation that leaves
  the error state: it returns the initial state, whose flag is off.
\<close>

theorem error_state_absorbs:
  assumes "isError s"
  shows "appendDigit d s = s \<and> appendDot s = s \<and> negate s = s \<and> pushOperator op s = s
    \<and> applyPercent s = s \<and> equals s = s \<and> clearEntry s = s \<and> backspace s = s
    \<and> clearAll s = initial \<and> \<not> isError (clearAll s)"
  using assms
  by (simp add: appendDigit_def appendDot_def negate_def pushOperator_def applyPercent_def
      equals_def clearEntry_def backspace_def clearAll_def initial_def)

text \<open>The error state reached by \<open>6 / 0 =\<close>, as an instance.\<close>

theorem error_state_absorbs_witness:
  "isError \<lparr>expressionTokens = [''6'', ''/'', ''0''], currentInput = [], lastResult = None, isError = True\<rparr>
   \<and> appendDigit ''7'' \<lparr>expressionTokens = [''6'', ''/'', ''0''], currentInput = [], lastResult = None, isError = True\<rparr>
       = \<lparr>expressionTokens = [''6'', ''/'', ''0''], currentInput = [], lastResult = None, isError = True\<rparr>
   \<and> equals \<lparr>expressionTokens = [''6'', ''/'', ''0''], currentInput = [], lastResult = None, isError = True\<rparr>
       = \<lparr>expressionTokens = [''6'', ''/'', ''0''], currentInput = [], lastResult = None, isError = True\<rparr>
   \<and> clearAll \<lparr>expressionTokens = [''6'', ''/'', ''0''], currentInput = [], lastResult = None, isError = True\<rparr>
       = initial"
  using error_state_absorbs [of "\<lparr>expressionTokens = [''6'', ''/'', ''0''], currentInput = [], lastResult = None, isError = True\<rparr>" "''7''" "''+''"]
  by simp

text \<open>
  C5. The claim is that no state reachable from the cleared state has two operator tokens
  next to each other in the committed sequence. The code does reach such a state: after
  \<open>3 + 5\<close>, sign toggle and backspace leave the pending input \<open>-\<close>; the next operator
  commits that lone minus as a token, takes it for the previous operator and overwrites it,
  so that \<open>*\<close> lands right after \<open>+\<close>.
\<close>

theorem consecutive_operators_reachable:
  "run [Digit ''3'', Operator ''+'', Digit ''5'', Negate, Backspace, Operator ''*''] initial
     = \<lparr>expressionTokens = [''3'', ''+'', ''*''], currentInput = [], lastResult = None, isError = False\<rparr>
   \<and> hasAdjacentOperators (expressionTokens
         (run [Digit ''3'', Operator ''+'', Digit ''5'', Negate, Backspace, Operator ''*''] initial))"
  by code_simp

text \<open>
  C6. The claim is that backspace on an empty pending input moves the last committed
  number back into the pending input without its last character, negative numbers
  included. The code decides what a number is with \<open>/^\d|\./\<close>, which a negative
  integer such as \<open>-5\<close> does not match: the token is removed outright and the pending
  input stays empty, where the claim has it become \<open>-\<close>. The state is reached by the
  keys \<open>- 5 +\<close> and one backspace.
\<close>

theorem backspace_drops_negative_token:
  "run [Operator ''-'', Digit ''5'', Operator ''+'', Backspace] initial
     = \<lparr>expressionTokens = [''-5''], currentInput = [], lastResult = None, isError = False\<rparr>
   \<and> backspace \<lparr>expressionTokens = [''-5''], currentInput = [], lastResult = None, isError = False\<rparr>
     = \<lparr>expressionTokens = [], currentInput = [], lastResult = None, isError = False\<rparr>"
  by code_simp

text \<open>
  What the code does in general: a last token that starts with a digit or has a dot goes
  back to the pending input without its last character, any other token is removed.
\<close>

lemma backspace_numeric_token:
  assumes "\<not> isError s" "currentInput s = []" "expressionTokens s = pre @ [t]" "looksNumeric t"
  shows "backspace s = s\<lparr>currentInput := butlast t, expressionTokens := pre\<rparr>"
  using assms by (simp add: backspace_def)

lemma backspace_other_token:
  assumes "\<not> isError s" "currentInput s = []" "expressionTokens s = pre @ [t]" "\<not> looksNumeric t"
  shows "backspace s = s\<lparr>expressionTokens := pre\<rparr>"
  using assms by (simp add: backspace_def)

text \<open>
  Every backspace in a state that is not empty and not in error makes the state smaller
  (one character less of pending input, or one token less), and it only ever touches the
  pending input and the tokens.
\<close>

lemma looksNumeric_nonempty: "looksNumeric t \<Longrightarrow> t \<noteq> []"
  by (auto simp: looksNumeric_def)

lemma sum_butlast_last:
  "xs \<noteq> [] \<Longrightarrow> (\<Sum>t\<leftarrow>xs. Suc (length t)) = (\<Sum>t\<leftarrow>butlast xs. Suc (length t)) + Suc (length (last xs))"
  by (induction xs) auto

lemma backspace_decreases:
  assumes "\<not> isError s" and "currentInput s \<noteq> [] \<or> expressionTokens s \<noteq> []"
  shows "sessionSize (backspace s) < sessionSize s"
proof (cases "currentInput s = []")
  case False
  then show ?thesis
    using assms by (simp add: backspace_def sessionSize_def)
next
  case True
  with assms have ne: "expressionTokens s \<noteq> []"
    by simp
  show ?thesis
    using assms True ne sum_butlast_last [OF ne]
    by (auto simp: backspace_def sessionSize_def Let_def dest: looksNumeric_nonempty)
qed

lemma backspace_frame:
  "(backspace s)\<lparr>currentInput := [], expressionTokens := []\<rparr>
     = s\<lparr>currentInput := [], expressionTokens := []\<rparr>"
  by (simp add: backspace_def Let_def)

lemma backspace_isError: "isError (backspace s) = isError s"
  by (simp add: backspace_def Let_def)

text \<open>
  C8, as amended. From every state that is not in error, pressing backspace until the
  pending input and the committed tokens are empty comes to an end, and the state it ends
  in has both empty, the error flag off and the last result as it was before. (It is the
  cleared state exactly when there was no last result.)
\<close>

theorem backspace_until_empty:
  assumes "\<not> isError s"
  shows "backspaceUntilEmpty s = Some (s\<lparr>currentInput := [], expressionTokens := []\<rparr>)"
  using assms
proof (induction "sessionSize s" arbitrary: s rule: less_induct)
  case less
  show ?case
  proof (cases "currentInput s = [] \<and> expressionTokens s = []")
    case True
    then have "s\<lparr>currentInput := [], expressionTokens := []\<rparr> = s"
      by simp
    with True show ?thesis
      by (subst backspaceUntilEmpty.simps) simp
  next
    case False
    then have smaller: "sessionSize (backspace s) < sessionSize s"
      using backspace_decreases [OF less.prems] by blast
    have "backspaceUntilEmpty s = backspaceUntilEmpty (backspace s)"
      using False by (subst backspaceUntilEmpty.simps) auto
    also have "\<dots> = Some ((backspace s)\<lparr>currentInput := [], expressionTokens := []\<rparr>)"
      using less.hyps [OF smaller] less.prems by (simp add: backspace_isError)
    finally show ?thesis
      by (simp add: backspace_frame)
  qed
qed

text \<open>An instance with two tokens, a pending input and no last result.\<close>

theorem backspace_until_empty_witness:
  "\<not> isError \<lparr>expressionTokens = [''12'', ''+''], currentInput = ''3.4'', lastResult = None, isError = False\<rparr>
   \<and> backspaceUntilEmpty \<lparr>expressionTokens = [''12'', ''+''], currentInput = ''3.4'', lastResult = None, isError = False\<rparr>
       = Some initial"
  using backspace_until_empty [of "\<lparr>expressionTokens = [''12'', ''+''], currentInput = ''3.4'', lastResult = None, isError = False\<rparr>"]
  by (simp add: initial_def)

text \<open>
  The claim as stated, with the cleared state as the end, fails after \<open>5 =\<close>: the
  last result \<open>5\<close> survives every backspace.
\<close>

lemma after_five_equals:
  "run [Digit ''5'', Equals] initial
     = \<lparr>expressionTokens = [''5''], currentInput = [], lastResult = Some (Fin 5), isError = False\<rparr>"
  by code_simp

theorem backspace_keeps_last_result:
  "run [Digit ''5'', Equals] initial
     = \<lparr>expressionTokens = [''5''], currentInput = [], lastResult = Some (Fin 5), isError = False\<rparr>
   \<and> backspaceUntilEmpty \<lparr>expressionTokens = [''5''], currentInput = [], lastResult = Some (Fin 5), isError = False\<rparr>
       = Some \<lparr>expressionTokens = [], currentInput = [], lastResult = Some (Fin 5), isError = False\<rparr>
   \<and> backspaceUntilEmpty \<lparr>expressionTokens = [''5''], currentInput = [], lastResult = Some (Fin 5), isError = False\<rparr>
       \<noteq> Some initial"
proof -
  have "backspaceUntilEmpty \<lparr>expressionTokens = [''5''], currentInput = [], lastResult = Some (Fin 5), isError = False\<rparr>
       = Some \<lparr>expressionTokens = [], currentInput = [], lastResult = Some (Fin 5), isError = False\<rparr>"
    by (subst backspaceUntilEmpty.simps, simp add: backspace_def looksNumeric_def isDigit_def,
        subst backspaceUntilEmpty.simps, simp)
  then show ?thesis
    using after_five_equals by (simp add: initial_def)
qed

section \<open>Properties of \<open>equals\<close>\<close>

lemma evaluateTokens_empty: "evaluateTokens [] = Failure MalformedExpression"
  by (simp add: evaluateTokens_def evaluateCall_def evaluateBody_def scanTokens.simps drainOps.simps)

lemma commitCurrent_currentInput: "currentInput (commitCurrent s) = []"
  by (simp add: commitCurrent_def)

lemma equals_ok:
  assumes "\<not> isError s" and "evaluateTokens (finalTokens s) = Ok v"
  shows "equals s = \<lparr>expressionTokens = [roundSmart v], currentInput = [],
                      lastResult = Some v, isError = False\<rparr>"
proof -
  have "finalTokens s \<noteq> []"
    using assms(2) evaluateTokens_empty by auto
  moreover have "isError (commitCurrent s) = isError s"
    by (simp add: commitCurrent_def)
  ultimately show ?thesis
    using assms commitCurrent_currentInput [of s]
    by (cases "commitCurrent s") (auto simp: equals_value finalTokens_def Let_def)
qed

lemma five_plus_three:
  "run [Digit ''5'', Equals, Operator ''+'', Digit ''3'', Equals] initial
     = \<lparr>expressionTokens = [''8''], currentInput = [], lastResult = Some (Fin 8), isError = False\<rparr>"
  by code_simp

text \<open>
  C7. In a state that is not in error, when the tokens handed to the evaluator (the
  committed tokens after the pending input is committed and an operator at the end is
  removed) evaluate to a value, \<open>equals\<close> stores that value as the last result, replaces
  all committed tokens by the one token that is the formatted value, and leaves the
  pending input empty. So the keys \<open>5 = + 3 =\<close> end with the result \<open>8\<close>.
\<close>

theorem equals_collapses_to_result:
  "(\<not> isError s \<and> evaluateTokens (finalTokens s) = Ok v
      \<longrightarrow> equals s = \<lparr>expressionTokens = [roundSmart v], currentInput = [],
                         lastResult = Some v, isError = False\<rparr>)
   \<and> run [Digit ''5'', Equals, Operator ''+'', Digit ''3'', Equals] initial
       = \<lparr>expressionTokens = [''8''], currentInput = [], lastResult = Some (Fin 8), isError = False\<rparr>"
  using equals_ok five_plus_three by blast

text \<open>The second \<open>=\<close> of that example, as an instance.\<close>

lemma five_plus_pending_three:
  "evaluateTokens (finalTokens \<lparr>expressionTokens = [''5'', ''+''], currentInput = ''3'',
      lastResult = Some (Fin 5), isError = False\<rparr>) = Ok (Fin 8)"
  by code_simp

lemma roundSmart_8: "roundSmart (Fin 8) = ''8''"
  by code_simp

theorem equals_collapses_to_result_witness:
  "\<not> isError \<lparr>expressionTokens = [''5'', ''+''], currentInput = ''3'', lastResult = Some (Fin 5), isError = False\<rparr>
   \<and> evaluateTokens (finalTokens \<lparr>expressionTokens = [''5'', ''+''], currentInput = ''3'',
         lastResult = Some (Fin 5), isError = False\<rparr>) = Ok (Fin 8)
   \<and> equals \<lparr>expressionTokens = [''5'', ''+''], currentInput = ''3'', lastResult = Some (Fin 5), isError = False\<rparr>
       = \<lparr>expressionTokens = [''8''], currentInput = [], lastResult = Some (Fin 8), isError = False\<rparr>"
  using equals_collapses_to_result [of "\<lparr>expressionTokens = [''5'', ''+''], currentInput = ''3'',
      lastResult = Some (Fin 5), isError = False\<rparr>" "Fin 8"] five_plus_pending_three roundSmart_8
  by simp

section \<open>Properties of \<open>applyPercent\<close>\<close>

lemma two_at_end: "2 \<le> length xs \<Longrightarrow> \<exists>ys y x. xs = ys @ [y, x]"
proof (cases xs rule: rev_cases)
  case Nil
  moreover assume "2 \<le> length xs"
  ultimately show ?thesis by simp
next
  case (snoc zs x)
  assume "2 \<le> length xs"
  with snoc have "zs \<noteq> []" by auto
  then obtain ys y where "zs = ys @ [y]"
    by (cases zs rule: rev_cases) auto
  with snoc show ?thesis by auto
qed

lemmas percent_defs =
  applyPercent_def percentSpec_def percentOperand_def percentContext_def percentOf_def
  replaceOperand_def Let_def nth_append butlast_append list_update_append

lemma applyPercent_pending:
  assumes "\<not> isError s" and "currentInput s \<noteq> []"
  shows "applyPercent s = percentSpec s"
proof (cases "2 \<le> length (expressionTokens s)")
  case True
  then obtain ys y x where "expressionTokens s = ys @ [y, x]"
    using two_at_end by blast
  with assms show ?thesis
    by (simp add: percent_defs)
next
  case False
  with assms show ?thesis
    by (simp add: percent_defs)
qed

lemma applyPercent_committed:
  assumes "\<not> isError s" and "currentInput s = []" and "expressionTokens s = pre @ [x]"
  shows "applyPercent s = percentSpec s"
proof (cases "2 \<le> length pre")
  case True
  then obtain ys z y where "pre = ys @ [z, y]"
    using two_at_end by blast
  with assms show ?thesis
    by (simp add: percent_defs)
next
  case False
  with assms show ?thesis
    by (simp add: percent_defs)
qed

lemma applyPercent_refines: "applyPercent s = percentSpec s"
proof (cases "isError s")
  case True
  then show ?thesis
    by (simp add: applyPercent_def percentSpec_def)
next
  case noErr: False
  show ?thesis
  proof (cases "currentInput s = []")
    case False
    with noErr show ?thesis
      by (rule applyPercent_pending)
  next
    case noInput: True
    show ?thesis
    proof (cases "expressionTokens s" rule: rev_cases)
      case Nil
      with noErr noInput show ?thesis
        by (simp add: applyPercent_def percentSpec_def percentOperand_def)
    next
      case (snoc pre x)
      with noErr noInput show ?thesis
        by (rule applyPercent_committed)
    qed
  qed
qed

lemma percent_200_plus_10:
  "applyPercent \<lparr>expressionTokens = [''200'', ''+''], currentInput = ''10'', lastResult = None, isError = False\<rparr>
     = \<lparr>expressionTokens = [''200'', ''+''], currentInput = ''20'', lastResult = None, isError = False\<rparr>"
  by code_simp

lemma percent_50:
  "applyPercent \<lparr>expressionTokens = [], currentInput = ''50'', lastResult = None, isError = False\<rparr>
     = \<lparr>expressionTokens = [], currentInput = ''0.5'', lastResult = None, isError = False\<rparr>"
  by code_simp

text \<open>
  C2. \<open>applyPercent\<close> is the percent rule of the specification: the operand \<open>B\<close> (the
  pending input if there is one, otherwise the last committed number token) is rewritten
  in place to \<open>A * (B / 100)\<close> when a number \<open>A\<close> and an operator \<open>+\<close> or \<open>-\<close>
  stand before it, and to \<open>B / 100\<close> when there is no such \<open>A\<close> or the operator is
  \<open>*\<close> or \<open>/\<close>. With the committed tokens \<open>200 +\<close> and the pending input \<open>10\<close>
  the pending input becomes \<open>20\<close>; the pending input \<open>50\<close> alone becomes \<open>0.5\<close>.
\<close>

theorem percent_follows_rule:
  "applyPercent s = percentSpec s
   \<and> applyPercent \<lparr>expressionTokens = [''200'', ''+''], currentInput = ''10'', lastResult = None, isError = False\<rparr>
       = \<lparr>expressionTokens = [''200'', ''+''], currentInput = ''20'', lastResult = None, isError = False\<rparr>
   \<and> applyPercent \<lparr>expressionTokens = [], currentInput = ''50'', lastResult = None, isError = False\<rparr>
       = \<lparr>expressionTokens = [], currentInput = ''0.5'', lastResult = None, isError = False\<rparr>"
  using applyPercent_refines percent_200_plus_10 percent_50 by blast

text \<open>The first example, read through the rule.\<close>

theorem percent_follows_rule_witness:
  "percentSpec \<lparr>expressionTokens = [''200'', ''+''], currentInput = ''10'', lastResult = None, isError = False\<rparr>
     = \<lparr>expressionTokens = [''200'', ''+''], currentInput = ''20'', lastResult = None, isError = False\<rparr>"
  using percent_follows_rule [of "\<lparr>expressionTokens = [''200'', ''+''], currentInput = ''10'',
      lastResult = None, isError = False\<rparr>"]
  by metis

section \<open>Properties of \<open>evaluateTokens\<close>\<close>

lemma evaluateTokens_from:
  "evaluateTokens toks = evaluateFrom 0 \<lparr>tokens = toks, outputs = [], ops = [], globals = initial\<rparr>"
  by (auto simp: evaluateTokens_def evaluateCall_def evaluateBody_def evaluateFrom_def Let_def
      split: prod.splits result.splits)

lemma applyOp_binop:
  assumes "outputs f = pre @ [a, b]"
  shows "applyOp op f = (case binop op a b of
            Ok v \<Rightarrow> (Ok (), f\<lparr>outputs := pre @ [v]\<rparr>)
          | Failure e \<Rightarrow> (Failure e, f\<lparr>outputs := pre\<rparr>))"
  using assms by (simp add: applyOp_def binop_def Let_def butlast_append)

lemma from_number:
  assumes "i < length (tokens f)" and "\<not> isOperator (tokens f ! i)"
  shows "evaluateFrom i f = (case operand (tokens f ! i) of
            Failure e \<Rightarrow> Failure e
          | Ok n \<Rightarrow> evaluateFrom (Suc i) (f\<lparr>outputs := outputs f @ [n]\<rparr>))"
  using assms
  by (simp add: evaluateFrom_def scanTokens.simps [of i f] operand_def Let_def)

lemma from_operator_push:
  assumes "i < length (tokens f)" and "isOperator (tokens f ! i)"
    and "ops f = [] \<or> \<not> precedenceGe (last (ops f)) (tokens f ! i)"
  shows "evaluateFrom i f = evaluateFrom (Suc i) (f\<lparr>ops := ops f @ [tokens f ! i]\<rparr>)"
  using assms
  by (auto simp: evaluateFrom_def scanTokens.simps [of i f] reduceOps.simps [of _ f] Let_def)

lemma from_operator_pop:
  assumes "i < length (tokens f)" and "isOperator (tokens f ! i)"
    and "ops f = os @ [oper]" and "precedenceGe oper (tokens f ! i)"
    and "outputs f = pre @ [a, b]"
  shows "evaluateFrom i f = (case binop oper a b of
            Failure e \<Rightarrow> Failure e
          | Ok v \<Rightarrow> evaluateFrom i (f\<lparr>ops := os, outputs := pre @ [v]\<rparr>))"
proof -
  have ap: "applyOp oper (f\<lparr>ops := os\<rparr>) = (case binop oper a b of
            Ok v \<Rightarrow> (Ok (), f\<lparr>ops := os, outputs := pre @ [v]\<rparr>)
          | Failure e \<Rightarrow> (Failure e, f\<lparr>ops := os, outputs := pre\<rparr>))"
    using applyOp_binop [of "f\<lparr>ops := os\<rparr>" pre a b oper] assms(5) by simp
  show ?thesis
  proof (cases "binop oper a b")
    case (Failure e)
    with assms ap show ?thesis
      by (simp add: evaluateFrom_def scanTokens.simps [of i f] reduceOps.simps [of _ f])
  next
    case (Ok v)
    let ?g = "f\<lparr>ops := os, outputs := pre @ [v]\<rparr>"
    have "reduceOps (tokens f ! i) f = reduceOps (tokens f ! i) ?g"
      using assms ap Ok by (simp add: reduceOps.simps [of _ f])
    then have "scanTokens i f = scanTokens i ?g"
      using assms by (simp add: scanTokens.simps [of i f] scanTokens.simps [of i ?g])
    with Ok show ?thesis
      by (simp add: evaluateFrom_def)
  qed
qed

lemma from_end_pop:
  assumes "length (tokens f) \<le> i"
    and "ops f = os @ [oper]" and "outputs f = pre @ [a, b]"
  shows "evaluateFrom i f = (case binop oper a b of
            Failure e \<Rightarrow> Failure e
          | Ok v \<Rightarrow> evaluateFrom i (f\<lparr>ops := os, outputs := pre @ [v]\<rparr>))"
proof -
  have ap: "applyOp oper (f\<lparr>ops := os\<rparr>) = (case binop oper a b of
            Ok v \<Rightarrow> (Ok (), f\<lparr>ops := os, outputs := pre @ [v]\<rparr>)
          | Failure e \<Rightarrow> (Failure e, f\<lparr>ops := os, outputs := pre\<rparr>))"
    using applyOp_binop [of "f\<lparr>ops := os\<rparr>" pre a b oper] assms(3) by simp
  show ?thesis
  proof (cases "binop oper a b")
    case (Failure e)
    with assms ap show ?thesis
      by (simp add: evaluateFrom_def scanTokens.simps [of i f] drainOps.simps [of f])
  next
    case (Ok v)
    let ?g = "f\<lparr>ops := os, outputs := pre @ [v]\<rparr>"
    have "drainOps f = drainOps ?g"
      using assms ap Ok by (simp add: drainOps.simps [of f])
    then show ?thesis
      using assms Ok
      by (simp add: evaluateFrom_def scanTokens.simps [of i f] scanTokens.simps [of i ?g])
  qed
qed

lemma from_end_done:
  assumes "length (tokens f) \<le> i" and "ops f = []" and "outputs f = [v]"
  shows "evaluateFrom i f = (if isFinite v then Ok v else Failure Overflow)"
  using assms
  by (simp add: evaluateFrom_def scanTokens.simps [of i f] drainOps.simps [of f])


lemma precedenceGe_multiplicative:
  "isMultiplicative m \<Longrightarrow> isOperator t \<Longrightarrow> precedenceGe m t"
  by (auto simp: isMultiplicative_def isOperator_def precedenceGe_def precedence_def)

lemma precedenceGe_additive:
  "isAdditive a \<Longrightarrow> isOperator t \<Longrightarrow> precedenceGe a t = isAdditive t"
  by (auto simp: isAdditive_def isOperator_def precedenceGe_def precedence_def)

lemma operator_kinds: "isOperator t = (isAdditive t \<or> isMultiplicative t)"
  by (auto simp: isAdditive_def isOperator_def isMultiplicative_def)

lemma additive_not_multiplicative: "isAdditive t \<Longrightarrow> \<not> isMultiplicative t"
  by (auto simp: isAdditive_def isMultiplicative_def)

lemma drop_Cons_nth:
  assumes "drop i xs = a # r"
  shows "i < length xs \<and> xs ! i = a \<and> drop (Suc i) xs = r"
proof -
  have lt: "i < length xs"
    using assms by (cases "i < length xs") auto
  then have "drop i xs = xs ! i # drop (Suc i) xs"
    by (simp add: Cons_nth_drop_Suc)
  with assms lt show ?thesis
    by simp
qed

lemma next_is_operator:
  assumes "drop j toks = rest" and "operatorTail rest"
  shows "j < length toks \<longrightarrow> isOperator (toks ! j)"
proof
  assume "j < length toks"
  with assms(1) have "rest = toks ! j # drop (Suc j) toks"
    by (simp add: Cons_nth_drop_Suc)
  with assms(2) show "isOperator (toks ! j)"
    by (cases "drop (Suc j) toks") auto
qed

lemma pop_multiplicative:
  assumes "isMultiplicative m" and "ops f = os @ [m]" and "outputs f = pre @ [a, b]"
    and "i < length (tokens f) \<longrightarrow> isOperator (tokens f ! i)"
  shows "evaluateFrom i f = (case binop m a b of
            Failure e \<Rightarrow> Failure e
          | Ok v \<Rightarrow> evaluateFrom i (f\<lparr>ops := os, outputs := pre @ [v]\<rparr>))"
proof (cases "i < length (tokens f)")
  case True
  with assms show ?thesis
    by (intro from_operator_pop) (auto simp: precedenceGe_multiplicative)
next
  case False
  with assms show ?thesis
    by (intro from_end_pop) auto
qed

lemma finish_Failure [simp]: "finish (Failure e) = Failure e"
  by (simp add: finish_def)

lemma scan_refines:
  assumes "operatorTail rest" and "drop i toks = rest" and "isAdditive aop"
  shows "evaluateFrom i \<lparr>tokens = toks, outputs = [acc], ops = [], globals = g\<rparr> = afterProduct acc rest
    \<and> evaluateFrom i \<lparr>tokens = toks, outputs = [s, acc], ops = [aop], globals = g\<rparr> = afterSum s aop acc rest"
  using assms
proof (induction rest arbitrary: i acc s aop rule: operatorTail.induct)
  case 1
  then have atEnd: "length toks \<le> i"
    by (simp cong: result.case_cong)
  have one: "evaluateFrom i \<lparr>tokens = toks, outputs = [acc], ops = [], globals = g\<rparr> = afterProduct acc []"
    using atEnd by (simp add: from_end_done afterProduct_def finish_def)
  have "evaluateFrom i \<lparr>tokens = toks, outputs = [s, acc], ops = [aop], globals = g\<rparr>
      = (case binop aop s acc of Failure e \<Rightarrow> Failure e
         | Ok v \<Rightarrow> evaluateFrom i \<lparr>tokens = toks, outputs = [v], ops = [], globals = g\<rparr>)"
    using atEnd
      from_end_pop [of "\<lparr>tokens = toks, outputs = [s, acc], ops = [aop], globals = g\<rparr>" i "[]" aop "[]" s acc]
    by (simp cong: result.case_cong)
  then have two: "evaluateFrom i \<lparr>tokens = toks, outputs = [s, acc], ops = [aop], globals = g\<rparr> = afterSum s aop acc []"
    using atEnd by (simp add: from_end_done afterSum_def finish_def split: result.splits)
  from one two show ?case
    by (simp cong: result.case_cong)
next
  case (2 op)
  then show ?case
    by (simp cong: result.case_cong)
next
  case (3 op t rest)
  from "3.prems" have isOp: "isOperator op" and notOp: "\<not> isOperator t" and tail: "operatorTail rest"
    by simp_all
  from drop_Cons_nth [OF "3.prems"(2)]
  have i0: "i < length toks" "toks ! i = op" and d1: "drop (Suc i) toks = t # rest"
    by simp_all
  from drop_Cons_nth [OF d1]
  have i1: "Suc i < length toks" "toks ! Suc i = t" and d2: "drop (Suc (Suc i)) toks = rest"
    by simp_all
  note nxt = next_is_operator [OF d2 tail]
  note IH = "3.IH" [OF tail d2]
  \<comment> \<open>reading the operand after an operator has been pushed\<close>
  have number: "evaluateFrom (Suc i) \<lparr>tokens = toks, outputs = out, ops = os, globals = g\<rparr>
      = (case operand t of Failure e \<Rightarrow> Failure e
         | Ok n \<Rightarrow> evaluateFrom (Suc (Suc i)) \<lparr>tokens = toks, outputs = out @ [n], ops = os, globals = g\<rparr>)"
    for out os
    using from_number [of "Suc i" "\<lparr>tokens = toks, outputs = out, ops = os, globals = g\<rparr>"] i1 notOp
    by (simp cong: result.case_cong)
  show ?case
  proof (cases "isMultiplicative op")
    case mult: True
    then have notAdd: "\<not> isAdditive op"
      using additive_not_multiplicative by blast
    have popM: "evaluateFrom (Suc (Suc i)) \<lparr>tokens = toks, outputs = pre @ [a, b], ops = os @ [op], globals = g\<rparr>
        = (case binop op a b of Failure e \<Rightarrow> Failure e
           | Ok v \<Rightarrow> evaluateFrom (Suc (Suc i)) \<lparr>tokens = toks, outputs = pre @ [v], ops = os, globals = g\<rparr>)"
      for pre a b os
      using pop_multiplicative [OF mult, of "\<lparr>tokens = toks, outputs = pre @ [a, b], ops = os @ [op], globals = g\<rparr>"
          os pre a b "Suc (Suc i)"] nxt
      by (simp cong: result.case_cong)
    have "evaluateFrom i \<lparr>tokens = toks, outputs = [acc], ops = [], globals = g\<rparr>
        = evaluateFrom (Suc i) \<lparr>tokens = toks, outputs = [acc], ops = [op], globals = g\<rparr>"
      using from_operator_push [of i "\<lparr>tokens = toks, outputs = [acc], ops = [], globals = g\<rparr>"] i0 isOp
      by (simp cong: result.case_cong)
    also have "\<dots> = (case operand t of Failure e \<Rightarrow> Failure e
         | Ok n \<Rightarrow> (case binop op acc n of Failure e \<Rightarrow> Failure e
             | Ok v \<Rightarrow> evaluateFrom (Suc (Suc i)) \<lparr>tokens = toks, outputs = [v], ops = [], globals = g\<rparr>))"
      using number [of "[acc]" "[op]"] popM [of "[]" acc _ "[]"]
      by (simp split: result.splits)
    also have "\<dots> = afterProduct acc (op # t # rest)"
      using IH [OF "3.prems"(3)] mult
      by (simp add: afterProduct_def split: result.splits)
    finally have one: "evaluateFrom i \<lparr>tokens = toks, outputs = [acc], ops = [], globals = g\<rparr>
        = afterProduct acc (op # t # rest)" .
    have "evaluateFrom i \<lparr>tokens = toks, outputs = [s, acc], ops = [aop], globals = g\<rparr>
        = evaluateFrom (Suc i) \<lparr>tokens = toks, outputs = [s, acc], ops = [aop, op], globals = g\<rparr>"
      using from_operator_push [of i "\<lparr>tokens = toks, outputs = [s, acc], ops = [aop], globals = g\<rparr>"] i0 isOp
        precedenceGe_additive [OF "3.prems"(3) isOp] notAdd
      by (simp cong: result.case_cong)
    also have "\<dots> = (case operand t of Failure e \<Rightarrow> Failure e
         | Ok n \<Rightarrow> (case binop op acc n of Failure e \<Rightarrow> Failure e
             | Ok v \<Rightarrow> evaluateFrom (Suc (Suc i)) \<lparr>tokens = toks, outputs = [s, v], ops = [aop], globals = g\<rparr>))"
      using number [of "[s, acc]" "[aop, op]"] popM [of "[s]" acc _ "[aop]"]
      by (simp split: result.splits)
    also have "\<dots> = afterSum s aop acc (op # t # rest)"
      using IH [OF "3.prems"(3)] mult
      by (simp add: afterSum_def split: result.splits)
    finally have two: "evaluateFrom i \<lparr>tokens = toks, outputs = [s, acc], ops = [aop], globals = g\<rparr>
        = afterSum s aop acc (op # t # rest)" .
    from one two show ?thesis
      by (simp cong: result.case_cong)
  next
    case notMult: False
    with isOp have add: "isAdditive op"
      by (simp add: operator_kinds)
    have push1: "evaluateFrom i \<lparr>tokens = toks, outputs = [a], ops = [], globals = g\<rparr>
        = (case operand t of Failure e \<Rightarrow> Failure e
           | Ok n \<Rightarrow> evaluateFrom (Suc (Suc i)) \<lparr>tokens = toks, outputs = [a, n], ops = [op], globals = g\<rparr>)"
      for a
      using from_operator_push [of i "\<lparr>tokens = toks, outputs = [a], ops = [], globals = g\<rparr>"] i0 isOp
        number [of "[a]" "[op]"]
      by (simp cong: result.case_cong)
    have one: "evaluateFrom i \<lparr>tokens = toks, outputs = [acc], ops = [], globals = g\<rparr>
        = afterProduct acc (op # t # rest)"
      using push1 [of acc] IH [OF add] notMult
      by (simp add: afterProduct_def afterSum_def split: result.splits)
    have "evaluateFrom i \<lparr>tokens = toks, outputs = [s, acc], ops = [aop], globals = g\<rparr>
        = (case binop aop s acc of Failure e \<Rightarrow> Failure e
           | Ok w \<Rightarrow> evaluateFrom i \<lparr>tokens = toks, outputs = [w], ops = [], globals = g\<rparr>)"
      using from_operator_pop [of i "\<lparr>tokens = toks, outputs = [s, acc], ops = [aop], globals = g\<rparr>" "[]" aop "[]" s acc]
        i0 isOp precedenceGe_additive [OF "3.prems"(3) isOp] add
      by (simp cong: result.case_cong)
    then have two: "evaluateFrom i \<lparr>tokens = toks, outputs = [s, acc], ops = [aop], globals = g\<rparr>
        = afterSum s aop acc (op # t # rest)"
      using push1 IH [OF add] notMult
      by (simp add: afterSum_def split: result.splits)
    from one two show ?thesis
      by (simp cong: result.case_cong)
  qed
qed

lemma evaluateTokens_refines:
  assumes "wellFormed ts"
  shows "evaluateTokens ts = specEvaluate ts"
proof -
  from assms obtain t rest where ts: "ts = t # rest" and notOp: "\<not> isOperator t"
    and tail: "operatorTail rest"
    by (auto simp: wellFormed_def split: list.splits)
  have "evaluateTokens ts = (case operand t of Failure e \<Rightarrow> Failure e
      | Ok n \<Rightarrow> evaluateFrom (Suc 0) \<lparr>tokens = ts, outputs = [n], ops = [], globals = initial\<rparr>)"
    using from_number [of 0 "\<lparr>tokens = ts, outputs = [], ops = [], globals = initial\<rparr>"] ts notOp
    by (simp add: evaluateTokens_from cong: result.case_cong)
  also have "\<dots> = (case operand t of Failure e \<Rightarrow> Failure e | Ok n \<Rightarrow> afterProduct n rest)"
    using scan_refines [OF tail, of "Suc 0" ts "''+''"] ts
    by (simp add: isAdditive_def split: result.splits)
  also have "\<dots> = specEvaluate ts"
    using ts by (simp add: specEvaluate_def afterProduct_def finish_def split: result.splits)
  finally show ?thesis .
qed

lemma two_plus_three_times_four:
  "evaluateTokens [''2'', ''+'', ''3'', ''*'', ''4''] = Ok (Fin 14)"
  by code_simp

text \<open>
  C1. On every well-formed token sequence (number tokens and operators in turn, a
  number first and last) \<open>evaluateTokens\<close> returns what the reference evaluator returns,
  value or failure: \<open>*\<close> and \<open>/\<close> bind tighter than \<open>+\<close> and \<open>-\<close>, and operators of
  the same precedence are applied from left to right. In particular the tokens
  \<open>2 + 3 * 4\<close> evaluate to \<open>14\<close>.
\<close>

theorem evaluator_respects_precedence:
  "(wellFormed ts \<longrightarrow> evaluateTokens ts = specEvaluate ts)
   \<and> evaluateTokens [''2'', ''+'', ''3'', ''*'', ''4''] = Ok (Fin 14)"
  using evaluateTokens_refines two_plus_three_times_four by blast

text \<open>The example, as an instance of the general statement.\<close>

theorem evaluator_respects_precedence_witness:
  "wellFormed [''2'', ''+'', ''3'', ''*'', ''4'']
   \<and> specEvaluate [''2'', ''+'', ''3'', ''*'', ''4''] = Ok (Fin 14)"
proof -
  have wf: "wellFormed [''2'', ''+'', ''3'', ''*'', ''4'']"
    by (simp add: wellFormed_def isOperator_def)
  with evaluator_respects_precedence [of "[''2'', ''+'', ''3'', ''*'', ''4'']"]
  show ?thesis
    by metis
qed

text \<open>
  The same for three operands, without the reference evaluator: the product is formed
  first whichever side it stands on, and two operators of one precedence are applied in
  the order in which they stand.
\<close>

lemma product_binds_tighter:
  assumes "\<not> isOperator a" "\<not> isOperator b" "\<not> isOperator c"
    and "operand a = Ok x" "operand b = Ok y" "operand c = Ok z"
    and "isAdditive p" "isMultiplicative m"
  shows "evaluateTokens [a, p, b, m, c]
      = (case binop m y z of Failure e \<Rightarrow> Failure e | Ok v \<Rightarrow> finish (binop p x v))"
    and "evaluateTokens [a, m, b, p, c]
      = (case binop m x y of Failure e \<Rightarrow> Failure e | Ok v \<Rightarrow> finish (binop p v z))"
  using assms
  by (auto simp: evaluateTokens_refines wellFormed_def specEvaluate_def operator_kinds
      additive_not_multiplicative finish_def split: result.splits)

lemma equal_precedence_left_to_right:
  assumes "\<not> isOperator a" "\<not> isOperator b" "\<not> isOperator c"
    and "operand a = Ok x" "operand b = Ok y" "operand c = Ok z"
    and "isAdditive p \<and> isAdditive q \<or> isMultiplicative p \<and> isMultiplicative q"
  shows "evaluateTokens [a, p, b, q, c]
      = (case binop p x y of Failure e \<Rightarrow> Failure e | Ok v \<Rightarrow> finish (binop q v z))"
  using assms
  by (auto simp: evaluateTokens_refines wellFormed_def specEvaluate_def operator_kinds
      additive_not_multiplicative finish_def split: result.splits)

lemma afterProduct_Nil: "afterProduct acc [] = finish (Ok acc)"
  by (simp add: afterProduct_def)

lemma afterProduct_multiplicative:
  "isMultiplicative op \<Longrightarrow> afterProduct acc (op # t # rest)
     = (case operand t of Failure e \<Rightarrow> Failure e
        | Ok n \<Rightarrow> (case binop op acc n of Failure e \<Rightarrow> Failure e
                    | Ok v \<Rightarrow> afterProduct v rest))"
  by (simp add: afterProduct_def split: result.splits)

lemma afterProduct_additive:
  "\<not> isMultiplicative op \<Longrightarrow> afterProduct acc (op # t # rest)
     = (case operand t of Failure e \<Rightarrow> Failure e | Ok n \<Rightarrow> afterSum acc op n rest)"
  by (simp add: afterProduct_def afterSum_def split: result.splits)

lemma afterSum_Nil:
  "afterSum s aop acc [] = (case binop aop s acc of Failure e \<Rightarrow> Failure e | Ok w \<Rightarrow> finish (Ok w))"
  by (simp add: afterSum_def split: result.splits)

lemma afterSum_multiplicative:
  "isMultiplicative op \<Longrightarrow> afterSum s aop acc (op # t # rest)
     = (case operand t of Failure e \<Rightarrow> Failure e
        | Ok n \<Rightarrow> (case binop op acc n of Failure e \<Rightarrow> Failure e
                    | Ok v \<Rightarrow> afterSum s aop v rest))"
  by (simp add: afterSum_def split: result.splits)

lemma afterSum_additive:
  "\<not> isMultiplicative op \<Longrightarrow> afterSum s aop acc (op # t # rest)
     = (case binop aop s acc of Failure e \<Rightarrow> Failure e
        | Ok w \<Rightarrow> (case operand t of Failure e \<Rightarrow> Failure e
                    | Ok n \<Rightarrow> afterSum w op n rest))"
  by (simp add: afterSum_def split: result.splits)

lemma specEvaluate_Cons:
  "specEvaluate (t # rest) = (case operand t of Failure e \<Rightarrow> Failure e | Ok n \<Rightarrow> afterProduct n rest)"
  by (simp add: specEvaluate_def afterProduct_def finish_def split: result.splits)

lemma operand_Failure: "operand t = Failure e \<Longrightarrow> e = InvalidNumber"
  by (simp add: operand_def Let_def split: if_splits)

lemma binop_Failure:
  "binop op a b = Failure e \<Longrightarrow> isOperator op \<Longrightarrow> e = InvalidNumber \<or> e = DivisionByZero"
  by (auto simp: binop_def isOperator_def split: if_splits)

lemma binop_Ok: "binop op a b = Ok v \<Longrightarrow> isFinite a \<and> isFinite b"
  by (auto simp: binop_def split: if_splits)

lemma isZero_isFinite: "isZero n \<Longrightarrow> isFinite n"
  by (auto simp: isZero_def isFinite_def)

lemma operand_zero: "isZero (Number z) \<Longrightarrow> operand z = Ok (Number z)"
  by (simp add: operand_def isZero_isFinite)

lemma divide_by_zero:
  "isZero n \<Longrightarrow> binop ''/'' a n = (if isFinite a then Failure DivisionByZero else Failure InvalidNumber)"
  by (simp add: binop_def isZero_isFinite)

lemma zero_division_in_tail:
  assumes "operatorTail rest" and "dividesByZero rest" and "isAdditive aop"
  shows "zeroDivisionFailure (afterProduct acc rest) \<and> zeroDivisionFailure (afterSum s aop acc rest)"
  using assms
proof (induction rest arbitrary: acc s aop rule: operatorTail.induct)
  case 1
  then show ?case by simp
next
  case (2 op)
  then show ?case by simp
next
  case (3 op t rest)
  from "3.prems" have isOp: "isOperator op" and notOp: "\<not> isOperator t" and tail: "operatorTail rest"
    by simp_all
  have aopOp: "isOperator aop"
    using "3.prems"(3) by (simp add: operator_kinds)
  from notOp have "t \<noteq> ''/''"
    by (auto simp: isOperator_def)
  then have later: "dividesByZero (t # rest) = dividesByZero rest"
    by (cases rest) auto
  show ?case
  proof (cases "op = ''/'' \<and> isZero (Number t)")
    case True
    have mult: "isMultiplicative ''/''"
      by (simp add: isMultiplicative_def)
    from True show ?thesis
      by (simp add: afterProduct_multiplicative [OF mult] afterSum_multiplicative [OF mult]
          operand_zero divide_by_zero zeroDivisionFailure_def)
  next
    case False
    with "3.prems"(2) later have dz: "dividesByZero rest"
      by simp
    note IH = "3.IH" [OF tail dz]
    show ?thesis
    proof (cases "isMultiplicative op")
      case True
      show ?thesis
        using IH [OF "3.prems"(3)]
        by (auto simp: afterProduct_multiplicative [OF True] afterSum_multiplicative [OF True]
            zeroDivisionFailure_def split: result.splits
            dest: operand_Failure binop_Failure [OF _ isOp])
    next
      case False
      with isOp have add: "isAdditive op"
        by (simp add: operator_kinds)
      show ?thesis
        using IH [OF add]
        by (auto simp: afterProduct_additive [OF False] afterSum_additive [OF False]
            zeroDivisionFailure_def split: result.splits
            dest: operand_Failure binop_Failure [OF _ aopOp])
    qed
  qed
qed

lemma zero_division_fails:
  assumes "wellFormed ts" and "dividesByZero ts"
  shows "zeroDivisionFailure (evaluateTokens ts)"
proof -
  from assms(1) obtain t rest where ts: "ts = t # rest" and notOp: "\<not> isOperator t"
    and tail: "operatorTail rest"
    by (auto simp: wellFormed_def split: list.splits)
  from notOp have "t \<noteq> ''/''"
    by (auto simp: isOperator_def)
  with assms(2) ts have dz: "dividesByZero rest"
    by (cases rest) auto
  have "zeroDivisionFailure (afterProduct n rest)" for n
    using zero_division_in_tail [OF tail dz, of "''+''"] by (simp add: isAdditive_def)
  then have "zeroDivisionFailure (specEvaluate ts)"
    using ts
    by (auto simp: specEvaluate_Cons zeroDivisionFailure_def split: result.splits
        dest: operand_Failure)
  then show ?thesis
    using evaluateTokens_refines [OF assms(1)] by simp
qed

lemma division_after_value:
  assumes "operatorTail pre" and "isZero (Number z)"
  shows "(afterProduct acc pre = Ok v \<longrightarrow>
            afterProduct acc (pre @ ''/'' # z # post) = Failure DivisionByZero)
    \<and> (afterSum s aop acc pre = Ok v \<longrightarrow>
            afterSum s aop acc (pre @ ''/'' # z # post) = Failure DivisionByZero)"
  using assms
proof (induction pre arbitrary: acc s aop v rule: operatorTail.induct)
  case 1
  have mult: "isMultiplicative ''/''"
    by (simp add: isMultiplicative_def)
  show ?case
    using "1.prems"(2) binop_Ok [of aop s acc]
    by (auto simp: afterProduct_Nil afterSum_Nil afterProduct_multiplicative [OF mult]
        afterSum_multiplicative [OF mult] operand_zero divide_by_zero finish_def
        split: result.splits if_splits)
next
  case (2 op)
  then show ?case by simp
next
  case (3 op t rest)
  from "3.prems" have tail: "operatorTail rest"
    by simp
  note IH = "3.IH" [OF tail "3.prems"(2)]
  show ?case
  proof (cases "isMultiplicative op")
    case True
    show ?thesis
      using IH
      by (auto simp: afterProduct_multiplicative [OF True] afterSum_multiplicative [OF True]
          split: result.splits)
  next
    case False
    show ?thesis
      using IH
      by (auto simp: afterProduct_additive [OF False] afterSum_additive [OF False]
          split: result.splits)
  qed
qed

lemma zero_division_after_value:
  assumes "wellFormed pre" and "wellFormed (pre @ ''/'' # z # post)"
    and "isZero (Number z)" and "evaluateTokens pre = Ok v"
  shows "evaluateTokens (pre @ ''/'' # z # post) = Failure DivisionByZero"
proof -
  from assms(1) obtain t rest where pre: "pre = t # rest" and tail: "operatorTail rest"
    by (auto simp: wellFormed_def split: list.splits)
  from assms(4) have "specEvaluate pre = Ok v"
    using evaluateTokens_refines [OF assms(1)] by simp
  with pre obtain n where n: "operand t = Ok n" and "afterProduct n rest = Ok v"
    by (auto simp: specEvaluate_Cons split: result.splits)
  then have "afterProduct n (rest @ ''/'' # z # post) = Failure DivisionByZero"
    using division_after_value [OF tail assms(3)] by blast
  with pre n have "specEvaluate (pre @ ''/'' # z # post) = Failure DivisionByZero"
    by (simp add: specEvaluate_Cons)
  then show ?thesis
    using evaluateTokens_refines [OF assms(2)] by simp
qed

lemma division_outcome_in_tail:
  assumes "operatorTail pre" and "isZero (Number z)"
  shows "afterProduct acc (pre @ ''/'' # z # post) = divideByZero (productBefore None acc pre)
    \<and> afterSum s aop acc (pre @ ''/'' # z # post)
        = divideByZero (productBefore (Some (s, aop)) acc pre)"
  using assms
proof (induction pre arbitrary: acc s aop rule: operatorTail.induct)
  case 1
  have mult: "isMultiplicative ''/''"
    by (simp add: isMultiplicative_def)
  show ?case
    using "1.prems"(2)
    by (simp add: afterProduct_multiplicative [OF mult] afterSum_multiplicative [OF mult]
        operand_zero divide_by_zero divideByZero_def)
next
  case (2 op)
  then show ?case by simp
next
  case (3 op t rest)
  from "3.prems" have tail: "operatorTail rest"
    by simp
  note IH = "3.IH" [OF tail "3.prems"(2)]
  show ?case
  proof (cases "isMultiplicative op")
    case True
    show ?thesis
      using IH
      by (simp add: afterProduct_multiplicative [OF True] afterSum_multiplicative [OF True]
          True divideByZero_def split: result.splits)
  next
    case False
    show ?thesis
      using IH
      by (simp add: afterProduct_additive [OF False] afterSum_additive [OF False]
          False divideByZero_def split: result.splits)
  qed
qed

lemma zero_division_outcome:
  assumes "wellFormed pre" and "wellFormed (pre @ ''/'' # z # post)" and "isZero (Number z)"
  shows "evaluateTokens (pre @ ''/'' # z # post) = divideByZero (dividend pre)"
proof -
  from assms(1) obtain t rest where pre: "pre = t # rest" and tail: "operatorTail rest"
    by (auto simp: wellFormed_def split: list.splits)
  have "specEvaluate (pre @ ''/'' # z # post) = divideByZero (dividend pre)"
    using division_outcome_in_tail [OF tail assms(3)] pre
    by (simp add: specEvaluate_Cons dividend_def divideByZero_def split: result.splits)
  then show ?thesis
    using evaluateTokens_refines [OF assms(2)] by simp
qed

text \<open>
  Overflow in the number model: the binary logarithm between two powers of two, and what
  \<open>roundDouble\<close> makes of a rational in the last binade and beyond it.
\<close>

lemma ilog2_eq:
  fixes a :: rat
  assumes "2 ^ n \<le> a" and "a < 2 ^ Suc n"
  shows "ilog2 a = int n"
proof -
  have one: "1 \<le> a"
    using assms(1) one_le_power [of "2::rat" n] by linarith
  have lo: "(2::int) ^ n \<le> \<lfloor>a\<rfloor>"
    using assms(1) by (simp add: le_floor_iff)
  have hi: "\<lfloor>a\<rfloor> < (2::int) ^ Suc n"
    using assms(2) by (simp add: floor_less_iff)
  have "bitlen \<lfloor>a\<rfloor> \<le> int (Suc n)"
    unfolding bitlen_le_iff_power nat_int using hi by simp
  moreover have "int (Suc n) \<le> bitlen \<lfloor>a\<rfloor>"
    unfolding bitlen_ge_iff_power nat_int using lo by simp
  ultimately show ?thesis
    using one by (simp add: ilog2_def)
qed

lemma ilog2_ge:
  fixes a :: rat
  assumes "2 ^ n \<le> a"
  shows "int n \<le> ilog2 a"
proof -
  have one: "1 \<le> a"
    using assms one_le_power [of "2::rat" n] by linarith
  have lo: "(2::int) ^ n \<le> \<lfloor>a\<rfloor>"
    using assms by (simp add: le_floor_iff)
  have "int (Suc n) \<le> bitlen \<lfloor>a\<rfloor>"
    unfolding bitlen_ge_iff_power nat_int using lo by simp
  then show ?thesis
    using one by (simp add: ilog2_def)
qed

lemma ilog2_le:
  fixes a :: rat
  assumes "1 \<le> a"
  shows "pow2 (ilog2 a) \<le> a"
proof -
  have pos: "0 < \<lfloor>a\<rfloor>"
    using assms by (simp add: less_floor_iff) 
  have "2 ^ nat (bitlen \<lfloor>a\<rfloor> - 1) \<le> \<lfloor>a\<rfloor>"
    using bitlen_bounds [OF pos] by simp
  then have "(2::rat) ^ nat (bitlen \<lfloor>a\<rfloor> - 1) \<le> of_int \<lfloor>a\<rfloor>"
    by (metis of_int_le_iff of_int_numeral of_int_power)
  also have "\<dots> \<le> a"
    by simp
  finally have le: "(2::rat) ^ nat (bitlen \<lfloor>a\<rfloor> - 1) \<le> a" .
  have "1 \<le> bitlen \<lfloor>a\<rfloor>"
    using pos bitlen_ge_iff_power [of 1 "\<lfloor>a\<rfloor>"] by simp
  then show ?thesis
    using le assms by (simp add: ilog2_def pow2_def)
qed

lemma roundHalfEven_bounds: "\<lfloor>q\<rfloor> \<le> roundHalfEven q \<and> roundHalfEven q \<le> \<lfloor>q\<rfloor> + 1"
  by (simp add: roundHalfEven_def Let_def)

lemma roundHalfEven_between:
  fixes q P :: rat
  assumes "0 < P" and "of_int lo * P \<le> q" and "q < (of_int hi - 1) * P"
  shows "lo \<le> roundHalfEven (q / P) \<and> roundHalfEven (q / P) < hi"
proof -
  have "of_int lo \<le> q / P"
    using assms(1,2) by (simp add: pos_le_divide_eq)
  then have lo: "lo \<le> \<lfloor>q / P\<rfloor>"
    by (simp add: le_floor_iff)
  have "q / P < of_int (hi - 1)"
    using assms(1,3) by (simp add: pos_divide_less_eq)
  then have "\<lfloor>q / P\<rfloor> < hi - 1"
    by (simp only: floor_less_iff)
  with lo roundHalfEven_bounds [of "q / P"] show ?thesis
    by linarith
qed

text \<open>A rational from \<open>2 ^ 1024\<close> on rounds to the positive infinity.\<close>

lemma roundDouble_overflow:
  assumes "2 ^ 1024 \<le> q"
  shows "roundDouble q = PInf"
proof -
  have pos: "0 < q"
    using assms zero_less_power [of "2::rat" 1024] by linarith
  have one: "1 \<le> q"
    using assms one_le_power [of "2::rat" 1024] by linarith
  define e where "e = max (ilog2 \<bar>q\<bar>) (- 1022)"
  define n where "n = roundHalfEven (\<bar>q\<bar> / pow2 (e - 52))"
  have e: "e = ilog2 q" "1024 \<le> e"
    using ilog2_ge [OF assms] pos by (simp_all add: e_def)
  have ppos: "0 < pow2 (e - 52)"
    using e(2) by (simp add: pow2_def)
  have "nat e = nat (e - 52) + 52"
    using e(2) by simp
  then have "(2::rat) ^ nat e = 2 ^ nat (e - 52) * 2 ^ 52"
    by (metis power_add)
  then have "pow2 e = of_int (2 ^ 52) * pow2 (e - 52)"
    using e(2) by (simp add: pow2_def)
  moreover have "pow2 e \<le> q"
    using ilog2_le [OF one] e by simp
  ultimately have "of_int (2 ^ 52) * pow2 (e - 52) \<le> q"
    by simp
  then have "of_int (2 ^ 52) \<le> q / pow2 (e - 52)"
    using ppos by (simp add: pos_le_divide_eq)
  then have "(2::int) ^ 52 \<le> \<lfloor>q / pow2 (e - 52)\<rfloor>"
    by (simp only: le_floor_iff)
  moreover have "n = roundHalfEven (q / pow2 (e - 52))"
    using pos by (simp add: n_def)
  ultimately have "2 ^ 52 \<le> n"
    using roundHalfEven_bounds [of "q / pow2 (e - 52)"] by linarith
  then have "n \<noteq> 0"
    by simp
  then show ?thesis
    using pos e(2) unfolding roundDouble_def Let_def e_def [symmetric] n_def [symmetric]
    by simp
qed

text \<open>
  A rational in the top binade, below its last double, rounds to a finite double of that
  binade.
\<close>

lemma roundDouble_top_binade:
  assumes "2 ^ 1023 \<le> q" and "q < (2 ^ 53 - 1) * 2 ^ 971"
  shows "\<exists>x. roundDouble q = Fin x \<and> 2 ^ 1023 \<le> x"
proof -
  have pos: "0 < q"
    using assms(1) zero_less_power [of "2::rat" 1023] by linarith
  have "(2 ^ 53 - 1) * 2 ^ 971 < (2::rat) ^ Suc 1023"
    by simp
  then have e: "ilog2 q = 1023"
    using ilog2_eq [of 1023 q] assms by simp
  define n where "n = roundHalfEven (q / pow2 971)"
  have ppos: "0 < pow2 971"
    by (simp add: pow2_def)
  have "of_int (2 ^ 52) * pow2 971 \<le> q" and "q < (of_int (2 ^ 53) - 1) * pow2 971"
    using assms by (simp_all add: pow2_def)
  from roundHalfEven_between [OF ppos this]
  have n: "2 ^ 52 \<le> n" "n < 2 ^ 53"
    by (simp_all add: n_def)
  then have "n \<noteq> 0"
    by simp
  then have "roundDouble q = Fin (of_int n * pow2 971)"
    using pos e n unfolding roundDouble_def Let_def
    by (simp add: n_def)
  moreover have "(2::rat) ^ 1023 \<le> of_int n * pow2 971"
  proof -
    have "of_int (2 ^ 52) * pow2 971 \<le> of_int n * pow2 971"
      using n(1) ppos by (simp only: mult_le_cancel_right_pos of_int_le_iff)
    then show ?thesis
      by (simp add: pow2_def)
  qed
  ultimately show ?thesis
    by blast
qed

lemma number_1e308: "Number ''1e308'' = roundDouble (10 ^ 308)"
  by (simp add: Number_def trimString_def isWhite_def scanDecimal_def scanSign_def
      scanExponent_def isDigit_def digitsValue_def digitVal_def pow10_def Let_def)


text \<open>
  A product that overflows before a division by zero: \<open>1e308 * 10\<close> is an infinity, and
  the evaluator reports the operand, not the divisor.
\<close>

lemma overflow_before_division:
  "evaluateTokens [''1e308'', ''*'', ''10'', ''/'', ''0''] = Failure InvalidNumber"
proof -
  have "(2::rat) ^ 1023 \<le> 10 ^ 308" and "(10::rat) ^ 308 < (2 ^ 53 - 1) * 2 ^ 971"
    by simp_all
  from roundDouble_top_binade [OF this] obtain x
    where x: "Number ''1e308'' = Fin x" "2 ^ 1023 \<le> x"
    using number_1e308 by auto
  have ten: "Number ''10'' = Fin 10"
    by code_simp
  have zero: "isZero (Number ''0'')"
    by code_simp
  have "2 ^ 1024 \<le> x * 10"
    using x(2) by simp
  from roundDouble_overflow [OF this] have "js_mul (Fin x) (Fin 10) = PInf"
    using x(2) by (simp add: js_mul_def isFinite_def isZero_def valueOf_def Let_def)
  then have "dividend [''1e308'', ''*'', ''10''] = Ok PInf"
    using x(1) ten
    by (simp add: dividend_def operand_def binop_def isFinite_def isMultiplicative_def Let_def)
  then have "divideByZero (dividend [''1e308'', ''*'', ''10'']) = Failure InvalidNumber"
    by (simp add: divideByZero_def isFinite_def)
  moreover have "wellFormed [''1e308'', ''*'', ''10'']"
    and "wellFormed ([''1e308'', ''*'', ''10''] @ ''/'' # ''0'' # [])"
    by (simp_all add: wellFormed_def isOperator_def)
  ultimately show ?thesis
    using zero_division_outcome [OF _ _ zero, of "[''1e308'', ''*'', ''10'']" "[]"] by simp
qed

lemma equals_failure:
  assumes "\<not> isError s" and "finalTokens s \<noteq> []" and "evaluateTokens (finalTokens s) = Failure e"
  shows "equals s = \<lparr>expressionTokens = finalTokens s, currentInput = [],
                      lastResult = None, isError = True\<rparr>"
proof -
  have "isError (commitCurrent s) = isError s"
    by (simp add: commitCurrent_def)
  then show ?thesis
    using assms commitCurrent_currentInput [of s]
    by (cases "commitCurrent s") (auto simp: equals_value finalTokens_def Let_def)
qed

lemma six_by_zero: "evaluateTokens [''6'', ''/'', ''0''] = Failure DivisionByZero"
  by code_simp

lemma six_by_zero_session:
  "run [Digit ''6'', Operator ''/'', Digit ''0'', Equals] initial
     = \<lparr>expressionTokens = [''6'', ''/'', ''0''], currentInput = [], lastResult = None, isError = True\<rparr>"
  by code_simp

lemma dividend_six: "dividend [''6''] = Ok (Fin 6)"
  by code_simp

text \<open>
  C3, as amended. On a well-formed token sequence that has a division whose divisor token
  is exactly zero, \<open>evaluateTokens\<close> never returns a value: it returns a tagged failure,
  division-by-zero or invalid-number. Which of them is settled by the tokens before the
  division sign, worked through from left to right as \<open>dividend\<close> does: if a step
  there fails (a token that is not a finite number, an operation on an intermediate value
  that has overflowed, an earlier division by zero), the result is that failure;
  otherwise it is invalid-number if the product that the zero divides has overflowed to an
  infinity, and division-by-zero if that product is finite. So when the tokens before the
  division sign evaluate to a value, the failure is division-by-zero, whatever follows the
  divisor. Every failure of the evaluator makes \<open>equals\<close> set the error flag and clear
  the last result. In particular \<open>6 / 0\<close> yields division-by-zero, and the keys
  \<open>6 / 0 =\<close> end in the error state; \<open>1e308 * 10 / 0\<close>, where the product has
  overflowed, yields invalid-number.
\<close>

theorem division_by_zero_fails:
  "(wellFormed ts \<and> dividesByZero ts \<longrightarrow>
      evaluateTokens ts = Failure DivisionByZero \<or> evaluateTokens ts = Failure InvalidNumber)
   \<and> (wellFormed pre \<and> wellFormed (pre @ ''/'' # z # post) \<and> isZero (Number z) \<longrightarrow>
      evaluateTokens (pre @ ''/'' # z # post) = divideByZero (dividend pre))
   \<and> (wellFormed pre \<and> wellFormed (pre @ ''/'' # z # post) \<and> isZero (Number z)
        \<and> evaluateTokens pre = Ok v \<longrightarrow>
      evaluateTokens (pre @ ''/'' # z # post) = Failure DivisionByZero)
   \<and> (\<not> isError s \<and> finalTokens s \<noteq> [] \<and> evaluateTokens (finalTokens s) = Failure e \<longrightarrow>
      equals s = \<lparr>expressionTokens = finalTokens s, currentInput = [],
                   lastResult = None, isError = True\<rparr>)
   \<and> evaluateTokens [''6'', ''/'', ''0''] = Failure DivisionByZero
   \<and> run [Digit ''6'', Operator ''/'', Digit ''0'', Equals] initial
       = \<lparr>expressionTokens = [''6'', ''/'', ''0''], currentInput = [], lastResult = None, isError = True\<rparr>
   \<and> evaluateTokens [''1e308'', ''*'', ''10'', ''/'', ''0''] = Failure InvalidNumber"
  using zero_division_fails [of ts] zero_division_outcome [of pre z post]
    zero_division_after_value [of pre z post v]
    equals_failure [of s e] six_by_zero six_by_zero_session overflow_before_division
  by (simp add: zeroDivisionFailure_def)

text \<open>
  The general statements at \<open>6 / 0\<close>: the tokens themselves, the division after the
  tokens \<open>6\<close>, whose left operand is the value \<open>6\<close>, and \<open>equals\<close> in the state with
  the tokens \<open>6 /\<close> committed and \<open>0\<close> pending.
\<close>

lemma six_alone: "evaluateTokens [''6''] = Ok (Fin 6)"
  by code_simp

lemma zero_token: "isZero (Number ''0'')"
  by code_simp

lemma six_by_zero_pending:
  "finalTokens \<lparr>expressionTokens = [''6'', ''/''], currentInput = ''0'', lastResult = None, isError = False\<rparr>
     = [''6'', ''/'', ''0'']"
  by code_simp

theorem division_by_zero_fails_witness:
  "wellFormed [''6'', ''/'', ''0''] \<and> dividesByZero [''6'', ''/'', ''0'']
   \<and> wellFormed [''6''] \<and> isZero (Number ''0'') \<and> evaluateTokens [''6''] = Ok (Fin 6)
   \<and> divideByZero (dividend [''6'']) = Failure DivisionByZero
   \<and> evaluateTokens ([''6''] @ ''/'' # ''0'' # []) = Failure DivisionByZero
   \<and> \<not> isError \<lparr>expressionTokens = [''6'', ''/''], currentInput = ''0'', lastResult = None, isError = False\<rparr>
   \<and> equals \<lparr>expressionTokens = [''6'', ''/''], currentInput = ''0'', lastResult = None, isError = False\<rparr>
       = \<lparr>expressionTokens = [''6'', ''/'', ''0''], currentInput = [], lastResult = None, isError = True\<rparr>"
proof -
  let ?s = "\<lparr>expressionTokens = [''6'', ''/''], currentInput = ''0'', lastResult = None, isError = False\<rparr>"
  have wf: "wellFormed [''6'']" "wellFormed [''6'', ''/'', ''0'']"
    by (simp_all add: wellFormed_def isOperator_def)
  have dz: "dividesByZero [''6'', ''/'', ''0'']"
    using zero_token by simp
  have outcome: "divideByZero (dividend [''6'']) = Failure DivisionByZero"
    by (simp add: dividend_six divideByZero_def isFinite_def)
  note general = division_by_zero_fails [of "[''6'', ''/'', ''0'']" "[''6'']" "''0''" "[]" "Fin 6"
      ?s DivisionByZero]
  have after: "evaluateTokens ([''6''] @ ''/'' # ''0'' # []) = Failure DivisionByZero"
    using general wf zero_token outcome by simp
  have "equals ?s = \<lparr>expressionTokens = finalTokens ?s, currentInput = [],
      lastResult = None, isError = True\<rparr>"
    using general six_by_zero_pending by simp
  with wf dz after outcome six_alone zero_token six_by_zero_pending show ?thesis
    by simp
qed

text \<open>
  The claim as stated, for every token sequence with such a division, fails on the
  tokens that the keys \<open>- . / 0\<close> commit: the first token does not read as a number, and
  the evaluator reports that before it comes to the division.
\<close>

theorem invalid_number_before_division:
  "dividesByZero [''-.'', ''/'', ''0'']
   \<and> evaluateTokens [''-.'', ''/'', ''0''] = Failure InvalidNumber
   \<and> evaluateTokens [''-.'', ''/'', ''0''] \<noteq> Failure DivisionByZero
   \<and> run [Operator ''-'', Dot, Operator ''/'', Digit ''0'', Equals] initial
       = \<lparr>expressionTokens = [''-.'', ''/'', ''0''], currentInput = [], lastResult = None, isError = True\<rparr>"
  by code_simp

section \<open>Properties of \<open>roundSmart\<close>\<close>

text \<open>The two examples of the specification hold.\<close>

lemma roundSmart_examples:
  "roundSmart (Fin 5) = ''5'' \<and> roundSmart (js_add (Number ''0.1'') (Number ''0.2'')) = ''0.3''"
  by code_simp

text \<open>The steps of \<open>roundSmart\<close> on \<open>1e30\<close>, one by one.\<close>

lemma roundSmart_steps_1e30:
  "toPrecision (min maxDigits 15) (Number ''1e30'') = ''1.00000000000e+30''
   \<and> Number ''1.00000000000e+30'' = Number ''1e30''
   \<and> isFinite (Number ''1e30'')
   \<and> toFixed 12 (Number ''1e30'') = ''1e+30''
   \<and> stripZeros ''1e+30'' = ''1e+3''"
  by code_simp

text \<open>
  C9. The claim is that \<open>roundSmart\<close> turns every finite double into a decimal string
  rounded to at most 12 significant digits, without trailing zeros or a trailing point.
  The code departs from it in two ways. The second rounding, \<open>toFixed(12)\<close>, prints the
  exact binary value of the double to 12 decimal places, so the digits that
  \<open>toPrecision(12)\<close> had removed come back: \<open>99999.99\<close> is shown with 17 significant
  digits. And from \<open>10 ^ 21\<close> on \<open>toFixed\<close> answers in exponent notation, of which the
  pattern \<open>/\.?0+$/\<close> then removes the final zeros of the exponent: \<open>1e30\<close> is shown
  as \<open>1e+3\<close>.
\<close>

theorem roundSmart_departs_from_rounding:
  "roundSmart (Number ''99999.99'') = ''99999.990000000005''
   \<and> roundSmart (Number ''1e30'') = ''1e+3''"
  by code_simp

end
